theory Spec2Isabelle
  imports Complex_Main "HOL-Library.Multiset"
begin

section \<open>Values, errors and tables\<close>

text \<open>
  The dashboard script \<^verbatim>\<open>app.py\<close> has two computations: \<^verbatim>\<open>get_gdp_data\<close>, which
  reads the World Bank table and pivots it from one column per year to one row per
  country and year, and the metrics loop at the end of the script, which looks up the
  GDP of each selected country in the first and the last selected year.

  A float of the script is an IEEE double: NaN, one of the two infinities, or a finite
  number, given by its value. The two zeros are one value here: the script compares
  with \<^verbatim>\<open>== 0\<close>, which holds of both, and divides only behind that test. A cell of a
  data frame is a float or a text.
\<close>

datatype pyfloat = NaN | PosInf | NegInf | Fin real

datatype cell = Float pyfloat | Str string

text \<open>
  The exceptions of the script. \<open>KeyError\<close> carries the labels that were not found.
\<close>

datatype py_error =
    KeyError "string list"
  | IndexError
  | TypeError
  | ValueError
  | ZeroDivisionError

text \<open>
  The file, after the tokenizer of \<^verbatim>\<open>pd.read_csv\<close> has skipped the first four lines
  and split the rest into fields: the header line, and one record per data line, which
  gives the field under each header name.
\<close>

record csv_table =
  header :: "string list"
  records :: "(string \<Rightarrow> string) list"

text \<open>A data frame: its column labels and its rows, each row giving the cell of a label.\<close>

record frame =
  columns :: "string list"
  rows :: "(string \<Rightarrow> cell) list"

text \<open>
  A row of the long table, with the four columns \<^verbatim>\<open>Country Name\<close>, \<^verbatim>\<open>Country Code\<close>,
  \<^verbatim>\<open>Year\<close> and \<^verbatim>\<open>GDP\<close>. The year is a text when \<^verbatim>\<open>melt\<close> returns and an integer
  after \<^verbatim>\<open>pd.to_numeric\<close>.
\<close>

record 'y long_row =
  Country_Name :: cell
  Country_Code :: cell
  Year :: 'y
  GDP :: cell

section \<open>Doubles\<close>

text \<open>
  The result of an arithmetic operation on doubles is the exact result rounded to the
  nearest double, to the one with the even significand when two are as near, and to an
  infinity when the rounded value leaves the range. A double has a significand of 53
  bits; its exponent is at least \<open>-1022\<close>, so that below \<^verbatim>\<open>2**-1022\<close> the doubles are
  the multiples of \<^verbatim>\<open>2**-1074\<close>, and the doubles end below \<^verbatim>\<open>2**1024\<close>.
\<close>

definition round_half_even :: "real \<Rightarrow> int" where
  "round_half_even x =
     (let n = \<lfloor>x\<rfloor>; d = x - of_int n
      in if d < 1 / 2 then n else if 1 / 2 < d then n + 1 else if even n then n else n + 1)"

text \<open>
  \<open>binade k lo a\<close> is the greatest exponent \<open>e\<close> from \<open>lo\<close> on with \<open>2 powi e \<le> a\<close>,
  found by bisection among the \<open>2 ^ k\<close> exponents that start at \<open>lo\<close>.
\<close>

fun binade :: "nat \<Rightarrow> int \<Rightarrow> real \<Rightarrow> int" where
  "binade 0 lo a = lo"
| "binade (Suc k) lo a =
     (if 2 powi (lo + 2 ^ k) \<le> a then binade k (lo + 2 ^ k) a else binade k lo a)"

text \<open>The exponent of the last place of the doubles around the magnitude \<open>a\<close>.\<close>

definition ulp_exponent :: "real \<Rightarrow> int" where
  "ulp_exponent a = (if a < 2 powi (- 1022) then - 1074 else binade 11 (- 1022) a - 52)"

definition signed_inf :: "real \<Rightarrow> pyfloat" where
  "signed_inf x = (if x < 0 then NegInf else PosInf)"

definition round_double :: "real \<Rightarrow> pyfloat" where
  "round_double x =
     (let a = \<bar>x\<bar>
      in if 2 powi 1024 \<le> a then signed_inf x
         else
           (let q = 2 powi ulp_exponent a; r = of_int (round_half_even (a / q)) * q
            in if 2 powi 1024 \<le> r then signed_inf x
               else Fin (if x < 0 then - r else r)))"

section \<open>Reading the file\<close>

text \<open>
  \<^verbatim>\<open>pd.read_csv(DATA_FILENAME, skiprows=4, na_values=['..'])\<close>. The tokens given in
  \<^verbatim>\<open>na_values\<close> are added to the library's own list of missing-value tokens.
\<close>

definition na_values :: "string list" where
  "na_values = [''..'']"

definition default_na_values :: "string list" where
  "default_na_values =
     ['''', ''#N/A'', ''#N/A N/A'', ''#NA'', ''-1.#IND'', ''-1.#QNAN'', ''-NaN'', ''-nan'',
      ''1.#IND'', ''1.#QNAN'', ''<NA>'', ''N/A'', ''NA'', ''NULL'', ''NaN'', ''None'',
      ''n/a'', ''nan'', ''null'']"

definition is_na :: "string \<Rightarrow> bool" where
  "is_na tok = (tok \<in> set (na_values @ default_na_values))"

text \<open>
  The library decides the type of a column as a whole: a column is numeric when each of
  its fields is a missing-value token or is read as a number, and is kept as text
  otherwise. A missing-value token becomes NaN in both cases. The reader of number
  literals is the parameter \<open>num_of\<close>; it gives the double of a literal.
\<close>

definition numeric_column :: "(string \<Rightarrow> pyfloat option) \<Rightarrow> csv_table \<Rightarrow> string \<Rightarrow> bool" where
  "numeric_column num_of file col =
     (\<forall>r \<in> set (records file). is_na (r col) \<or> num_of (r col) \<noteq> None)"

definition convert_field :: "(string \<Rightarrow> pyfloat option) \<Rightarrow> bool \<Rightarrow> string \<Rightarrow> cell" where
  "convert_field num_of numeric tok =
     (if is_na tok then Float NaN
      else if numeric then (case num_of tok of Some x \<Rightarrow> Float x | None \<Rightarrow> Str tok)
      else Str tok)"

definition read_csv :: "(string \<Rightarrow> pyfloat option) \<Rightarrow> csv_table \<Rightarrow> frame" where
  "read_csv num_of file =
     \<lparr>columns = header file,
      rows = map (\<lambda>r col. convert_field num_of (numeric_column num_of file col) (r col))
               (records file)\<rparr>"

section \<open>Year labels\<close>

text \<open>
  \<^verbatim>\<open>str(y)\<close> on an integer, and \<^verbatim>\<open>pd.to_numeric\<close> on the texts it produces. Only the
  integer literals are read here; any other text is a \<open>ValueError\<close>.
\<close>

definition digit_char :: "nat \<Rightarrow> char" where
  "digit_char d = char_of (48 + d)"

fun str_nat :: "nat \<Rightarrow> string" where
  "str_nat n = (if n < 10 then [digit_char n] else str_nat (n div 10) @ [digit_char (n mod 10)])"

declare str_nat.simps [simp del]

definition str :: "int \<Rightarrow> string" where
  "str i = (if i < 0 then CHR ''-'' # str_nat (nat (- i)) else str_nat (nat i))"

definition digit_val :: "char \<Rightarrow> nat option" where
  "digit_val c =
     (let k = (of_char c :: nat) in if 48 \<le> k \<and> k \<le> 57 then Some (k - 48) else None)"

fun parse_nat :: "nat \<Rightarrow> string \<Rightarrow> nat option" where
  "parse_nat acc [] = Some acc"
| "parse_nat acc (c # cs) =
     (case digit_val c of None \<Rightarrow> None | Some d \<Rightarrow> parse_nat (10 * acc + d) cs)"

definition to_numeric :: "string \<Rightarrow> py_error + int" where
  "to_numeric s =
     (case s of
        [] \<Rightarrow> Inl ValueError
      | c # cs \<Rightarrow>
          if c = CHR ''-'' then
            (case cs of
               [] \<Rightarrow> Inl ValueError
             | _ # _ \<Rightarrow>
                 (case parse_nat 0 cs of None \<Rightarrow> Inl ValueError | Some n \<Rightarrow> Inr (- int n)))
          else (case parse_nat 0 s of None \<Rightarrow> Inl ValueError | Some n \<Rightarrow> Inr (int n)))"

section \<open>The pivot\<close>

text \<open>
  \<^verbatim>\<open>raw_gdp_df[labels]\<close>: the frame restricted to the given labels, in their order; a
  \<open>KeyError\<close> when a label is not a column.
\<close>

definition getitem_columns :: "frame \<Rightarrow> string list \<Rightarrow> py_error + frame" where
  "getitem_columns df labels =
     (let missing = filter (\<lambda>l. l \<notin> set (columns df)) labels
      in if missing = [] then Inr (df\<lparr>columns := labels\<rparr>) else Inl (KeyError missing))"

text \<open>
  \<^verbatim>\<open>melt(id_vars=['Country Name', 'Country Code'], value_vars=year_cols,
  var_name='Year', value_name='GDP')\<close>: the value columns one after the other, each with
  all the rows of the frame in their order.
\<close>

definition id_vars :: "string list" where
  "id_vars = [''Country Name'', ''Country Code'']"

definition melt :: "frame \<Rightarrow> string list \<Rightarrow> py_error + string long_row list" where
  "melt df value_vars =
     (let missing = filter (\<lambda>l. l \<notin> set (columns df)) (id_vars @ value_vars)
      in if missing = [] then
           Inr (concat (map (\<lambda>v. map (\<lambda>r. \<lparr>Country_Name = r ''Country Name'',
                                             Country_Code = r ''Country Code'',
                                             Year = v, GDP = r v\<rparr>) (rows df)) value_vars))
         else Inl (KeyError missing))"

text \<open>\<^verbatim>\<open>gdp_df['Year'] = pd.to_numeric(gdp_df['Year'])\<close>.\<close>

fun to_numeric_Year :: "string long_row list \<Rightarrow> py_error + int long_row list" where
  "to_numeric_Year [] = Inr []"
| "to_numeric_Year (r # rs) =
     (case to_numeric (Year r) of
        Inl e \<Rightarrow> Inl e
      | Inr y \<Rightarrow>
          (case to_numeric_Year rs of
             Inl e \<Rightarrow> Inl e
           | Inr rs' \<Rightarrow> Inr (\<lparr>Country_Name = Country_Name r, Country_Code = Country_Code r,
                               Year = y, GDP = GDP r\<rparr> # rs')))"

text \<open>
  \<^verbatim>\<open>get_gdp_data\<close>, with its two constants \<^verbatim>\<open>MIN_YEAR\<close> and \<^verbatim>\<open>MAX_YEAR\<close> as
  parameters first, then as the script sets them.
\<close>

definition year_cols :: "int \<Rightarrow> int \<Rightarrow> string list" where
  "year_cols MIN_YEAR MAX_YEAR = map str [MIN_YEAR..MAX_YEAR]"

definition get_gdp_data_range ::
  "int \<Rightarrow> int \<Rightarrow> (string \<Rightarrow> pyfloat option) \<Rightarrow> csv_table \<Rightarrow> py_error + int long_row list" where
  "get_gdp_data_range MIN_YEAR MAX_YEAR num_of file =
     (let raw_gdp_df = read_csv num_of file
      in case getitem_columns raw_gdp_df
                ([''Country Name'', ''Country Code''] @ year_cols MIN_YEAR MAX_YEAR) of
           Inl e \<Rightarrow> Inl e
         | Inr df \<Rightarrow>
             (case melt df (year_cols MIN_YEAR MAX_YEAR) of
                Inl e \<Rightarrow> Inl e
              | Inr gdp_df \<Rightarrow> to_numeric_Year gdp_df))"




section \<open>The metrics loop\<close>

text \<open>
  A text of a tile is the literal \<^verbatim>\<open>'n/a'\<close> or a formatted float: \<open>Formatted x\<close> stands
  for \<^verbatim>\<open>f"{x:,.0f}B"\<close> in the value of a tile and for \<^verbatim>\<open>f"{x:,.2f}x"\<close> in its delta
  (a NaN is printed as \<^verbatim>\<open>nan\<close> and an infinity as \<^verbatim>\<open>inf\<close> by both).
\<close>

datatype metric_text = NA | Formatted pyfloat

datatype colour = Off | Normal

record tile =
  tile_column :: nat
  tile_label :: string
  tile_value :: metric_text
  tile_delta :: metric_text
  tile_delta_color :: colour

text \<open>\<^verbatim>\<open>.iat[0]\<close> raises \<open>IndexError\<close> on an empty selection.\<close>

definition iat0 :: "'a list \<Rightarrow> py_error + 'a" where
  "iat0 xs = (case xs of [] \<Rightarrow> Inl IndexError | x # _ \<Rightarrow> Inr x)"

text \<open>\<^verbatim>\<open>v / 1e9\<close> on a cell: a text cannot be divided; a float is divided as a double.\<close>

definition billions :: "cell \<Rightarrow> py_error + pyfloat" where
  "billions v =
     (case v of
        Str s \<Rightarrow> Inl TypeError
      | Float NaN \<Rightarrow> Inr NaN
      | Float PosInf \<Rightarrow> Inr PosInf
      | Float NegInf \<Rightarrow> Inr NegInf
      | Float (Fin x) \<Rightarrow> Inr (round_double (x / 1000000000)))"

text \<open>\<^verbatim>\<open>except IndexError: ... = float('nan')\<close>; any other exception goes on.\<close>

fun except_IndexError :: "py_error + pyfloat \<Rightarrow> py_error + pyfloat" where
  "except_IndexError (Inl IndexError) = Inr NaN"
| "except_IndexError r = r"

text \<open>
  \<^verbatim>\<open>year_df[year_df['Country Code'] == country]['GDP'].iat[0] / 1e9\<close> inside its
  \<^verbatim>\<open>try\<close>. A cell equals the text \<open>country\<close> only when it is that text.
\<close>

definition gdp_lookup :: "int long_row list \<Rightarrow> string \<Rightarrow> py_error + pyfloat" where
  "gdp_lookup year_df country =
     except_IndexError
       (case iat0 (map GDP (filter (\<lambda>r. Country_Code r = Str country) year_df)) of
          Inl e \<Rightarrow> Inl e
        | Inr v \<Rightarrow> billions v)"

definition isnan :: "pyfloat \<Rightarrow> bool" where
  "isnan x = (x = NaN)"

text \<open>
  \<^verbatim>\<open>last_gdp / first_gdp\<close>, the division of doubles. A zero divisor is an error here
  (the library would give an infinity or NaN with a warning); the loop divides only
  after its test for zero.
\<close>

fun truediv :: "pyfloat \<Rightarrow> pyfloat \<Rightarrow> py_error + pyfloat" where
  "truediv a (Fin b) =
     (if b = 0 then Inl ZeroDivisionError
      else (case a of
              NaN \<Rightarrow> Inr NaN
            | PosInf \<Rightarrow> Inr (signed_inf b)
            | NegInf \<Rightarrow> Inr (signed_inf (- b))
            | Fin x \<Rightarrow> Inr (round_double (x / b))))"
| "truediv a NaN = Inr NaN"
| "truediv a PosInf = (case a of Fin x \<Rightarrow> Inr (Fin 0) | _ \<Rightarrow> Inr NaN)"
| "truediv a NegInf = (case a of Fin x \<Rightarrow> Inr (Fin 0) | _ \<Rightarrow> Inr NaN)"

text \<open>The body of the loop for one country, in column \<open>i % 4\<close>.\<close>

definition metric :: "int long_row list \<Rightarrow> int long_row list \<Rightarrow> nat \<Rightarrow> string \<Rightarrow> py_error + tile" where
  "metric first_year_df last_year_df i country =
     (case gdp_lookup first_year_df country of
        Inl e \<Rightarrow> Inl e
      | Inr first_gdp \<Rightarrow>
          (case gdp_lookup last_year_df country of
             Inl e \<Rightarrow> Inl e
           | Inr last_gdp \<Rightarrow>
               (case (if isnan first_gdp \<or> first_gdp = Fin 0 then Inr (NA, Off)
                      else (case truediv last_gdp first_gdp of
                              Inl e \<Rightarrow> Inl e
                            | Inr q \<Rightarrow> Inr (Formatted q, Normal))) of
                  Inl e \<Rightarrow> Inl e
                | Inr (growth, delta_color) \<Rightarrow>
                    Inr \<lparr>tile_column = i mod 4,
                         tile_label = country @ '' GDP'',
                         tile_value = (if \<not> isnan last_gdp then Formatted last_gdp else NA),
                         tile_delta = growth,
                         tile_delta_color = delta_color\<rparr>)))"

text \<open>\<^verbatim>\<open>for i, country in enumerate(selected_countries)\<close>: an exception ends the script.\<close>

fun metrics_loop ::
  "int long_row list \<Rightarrow> int long_row list \<Rightarrow> nat \<Rightarrow> string list \<Rightarrow> py_error + tile list" where
  "metrics_loop first_year_df last_year_df i [] = Inr []"
| "metrics_loop first_year_df last_year_df i (country # rest) =
     (case metric first_year_df last_year_df i country of
        Inl e \<Rightarrow> Inl e
      | Inr t \<Rightarrow>
          (case metrics_loop first_year_df last_year_df (Suc i) rest of
             Inl e \<Rightarrow> Inl e
           | Inr ts \<Rightarrow> Inr (t # ts)))"

definition metrics ::
  "int long_row list \<Rightarrow> string list \<Rightarrow> int \<Rightarrow> int \<Rightarrow> py_error + tile list" where
  "metrics gdp_df selected_countries from_year to_year =
     (let first_year_df = filter (\<lambda>r. Year r = from_year) gdp_df;
          last_year_df = filter (\<lambda>r. Year r = to_year) gdp_df
      in metrics_loop first_year_df last_year_df 0 selected_countries)"

section \<open>Notions of the specification\<close>

text \<open>
  The labels \<^verbatim>\<open>get_gdp_data\<close> selects: \<^verbatim>\<open>['Country Name', 'Country Code'] + year_cols\<close>.
\<close>

definition required_columns :: "int \<Rightarrow> int \<Rightarrow> string list" where
  "required_columns lo hi = [''Country Name'', ''Country Code''] @ year_cols lo hi"

text \<open>
  The long table as the specification describes it: one record for each year of the
  range and each row of the wide table, with the name and the code of the row and its
  value under the label of the year.
\<close>

definition spec_long_table :: "int \<Rightarrow> int \<Rightarrow> frame \<Rightarrow> int long_row list" where
  "spec_long_table lo hi df =
     map (\<lambda>(y, w). \<lparr>Country_Name = w ''Country Name'', Country_Code = w ''Country Code'',
                     Year = y, GDP = w (str y)\<rparr>) (List.product [lo..hi] (rows df))"

text \<open>
  The record the specification locates for an entity code and a year: the first one in
  the order of the table, \<open>None\<close> when the table has no record for the pair.
\<close>

definition spec_locate :: "int long_row list \<Rightarrow> string \<Rightarrow> int \<Rightarrow> int long_row option" where
  "spec_locate gdp_df code y = find (\<lambda>r. Year r = y \<and> Country_Code r = Str code) gdp_df"

text \<open>The key of a record of the long table: its entity code and its year.\<close>

definition entity_year :: "int long_row \<Rightarrow> cell \<times> int" where
  "entity_year r = (Country_Code r, Year r)"

text \<open>A long table whose \<^verbatim>\<open>GDP\<close> column holds floats only (NaN included), no text.\<close>

definition float_GDP :: "int long_row list \<Rightarrow> bool" where
  "float_GDP gdp_df = list_all (\<lambda>r. case GDP r of Float x \<Rightarrow> True | Str s \<Rightarrow> False) gdp_df"

section \<open>Example inputs\<close>

text \<open>
  A file with the two identifier columns, a column the script does not use and the years
  2020 and 2021; France has the missing-value token in 2020.
\<close>

definition example_num_of :: "string \<Rightarrow> pyfloat option" where
  "example_num_of = map_of [(''10'', Fin 10), (''25'', Fin 25)]"

definition example_file :: csv_table where
  "example_file =
     \<lparr>header = [''Country Name'', ''Country Code'', ''Indicator Name'', ''2020'', ''2021''],
      records =
        [(\<lambda>l. [])(''Country Name'' := ''Germany'', ''Country Code'' := ''DEU'',
                    ''2020'' := ''10'', ''2021'' := ''25''),
         (\<lambda>l. [])(''Country Name'' := ''France'', ''Country Code'' := ''FRA'',
                    ''2020'' := ''..'', ''2021'' := ''10'')]\<rparr>"

text \<open>The long table of Germany with the values 10 and 25.\<close>

definition growth_table :: "int long_row list" where
  "growth_table =
     [\<lparr>Country_Name = Str ''Germany'', Country_Code = Str ''DEU'', Year = 2020, GDP = Float (Fin 10)\<rparr>,
      \<lparr>Country_Name = Str ''Germany'', Country_Code = Str ''DEU'', Year = 2021, GDP = Float (Fin 25)\<rparr>]"

text \<open>A long table with two records for Germany in 2020.\<close>

definition dup_table :: "int long_row list" where
  "dup_table =
     [\<lparr>Country_Name = Str ''Germany'', Country_Code = Str ''DEU'', Year = 2020, GDP = Float (Fin 10)\<rparr>,
      \<lparr>Country_Name = Str ''Germany'', Country_Code = Str ''DEU'', Year = 2020, GDP = Float (Fin 20)\<rparr>,
      \<lparr>Country_Name = Str ''Germany'', Country_Code = Str ''DEU'', Year = 2021, GDP = Float (Fin 25)\<rparr>]"

text \<open>A file whose header lacks the year 2021.\<close>

definition short_file :: csv_table where
  "short_file =
     \<lparr>header = [''Country Name'', ''Country Code'', ''2020''],
      records = [(\<lambda>l. [])(''Country Name'' := ''Germany'', ''Country Code'' := ''DEU'', ''2020'' := ''10'')]\<rparr>"

text \<open>The long table of Germany with the values 4120 and 378525.\<close>

definition ratio_table :: "int long_row list" where
  "ratio_table =
     [\<lparr>Country_Name = Str ''Germany'', Country_Code = Str ''DEU'', Year = 2020, GDP = Float (Fin 4120)\<rparr>,
      \<lparr>Country_Name = Str ''Germany'', Country_Code = Str ''DEU'', Year = 2021, GDP = Float (Fin 378525)\<rparr>]"

text \<open>The long table of Germany with the double \<^verbatim>\<open>2**-1070\<close> (about \<^verbatim>\<open>8e-323\<close>) and 25.\<close>

definition tiny_table :: "int long_row list" where
  "tiny_table =
     [\<lparr>Country_Name = Str ''Germany'', Country_Code = Str ''DEU'', Year = 2020,
       GDP = Float (Fin (2 powi (- 1070)))\<rparr>,
      \<lparr>Country_Name = Str ''Germany'', Country_Code = Str ''DEU'', Year = 2021, GDP = Float (Fin 25)\<rparr>]"

text \<open>A file with the years 2020 and 2021 in which two rows have the code of Germany.\<close>

definition dup_file :: csv_table where
  "dup_file =
     \<lparr>header = [''Country Name'', ''Country Code'', ''2020'', ''2021''],
      records =
        [(\<lambda>l. [])(''Country Name'' := ''Germany'', ''Country Code'' := ''DEU'',
                    ''2020'' := ''10'', ''2021'' := ''25''),
         (\<lambda>l. [])(''Country Name'' := ''Deutschland'', ''Country Code'' := ''DEU'',
                    ''2020'' := ''10'', ''2021'' := ''25'')]\<rparr>"



section \<open>Rounding to a double\<close>

lemma round_half_even_error: "\<bar>of_int (round_half_even x) - x\<bar> \<le> 1 / 2"
proof -
  have "of_int \<lfloor>x\<rfloor> \<le> x" and "x < of_int \<lfloor>x\<rfloor> + 1"
    by linarith+
  then show ?thesis
    by (auto simp: round_half_even_def Let_def)
qed

lemma round_half_even_frac:
  assumes "0 < d"
  shows "round_half_even (of_int n / of_int d) =
     (let k = n div d; r = n mod d
      in if 2 * r < d then k else if d < 2 * r then k + 1 else if even k then k else k + 1)"
proof -
  have f: "\<lfloor>(of_int n :: real) / of_int d\<rfloor> = n div d"
    by (simp add: floor_divide_of_int_eq)
  have "(of_int n :: real) = of_int (n div d) * of_int d + of_int (n mod d)"
    by (metis of_int_add of_int_mult div_mult_mod_eq)
  then have d: "(of_int n :: real) / of_int d - of_int (n div d) = of_int (n mod d) / of_int d"
    using assms by (simp add: field_simps)
  have lt: "((of_int (n mod d) :: real) / of_int d < 1 / 2) = (2 * (n mod d) < d)"
    using assms by (simp add: field_simps) (metis of_int_less_iff of_int_mult of_int_numeral)
  have gt: "(1 / 2 < (of_int (n mod d) :: real) / of_int d) = (d < 2 * (n mod d))"
    using assms by (simp add: field_simps) (metis of_int_less_iff of_int_mult of_int_numeral)
  show ?thesis
    by (simp only: round_half_even_def Let_def f d lt gt)
qed

lemma binade_bounds:
  "2 powi lo \<le> a \<Longrightarrow> a < 2 powi (lo + 2 ^ k) \<Longrightarrow>
     2 powi (binade k lo a) \<le> a \<and> a < 2 powi (binade k lo a + 1)"
proof (induction k arbitrary: lo)
  case 0
  then show ?case by simp
next
  case (Suc k)
  show ?case
  proof (cases "2 powi (lo + 2 ^ k) \<le> a")
    case True
    have "lo + 2 ^ Suc k = lo + 2 ^ k + 2 ^ k" by simp
    with Suc.prems(2) have "a < 2 powi (lo + 2 ^ k + 2 ^ k)" by (simp only:)
    with Suc.IH [OF True] True show ?thesis by simp
  next
    case False
    then have "a < 2 powi (lo + 2 ^ k)" by simp
    with Suc.IH [OF Suc.prems(1)] False show ?thesis by simp
  qed
qed

lemma binade_unique:
  assumes "2 powi e \<le> (a::real)" "a < 2 powi (e + 1)" "2 powi e' \<le> a" "a < 2 powi (e' + 1)"
  shows "e = e'"
proof (rule ccontr)
  assume "e \<noteq> e'"
  then consider "e + 1 \<le> e'" | "e' + 1 \<le> e" by linarith
  then show False
  proof cases
    case 1
    then have "(2::real) powi (e + 1) \<le> 2 powi e'"
      by (intro power_int_increasing) simp_all
    with assms show False by linarith
  next
    case 2
    then have "(2::real) powi (e' + 1) \<le> 2 powi e"
      by (intro power_int_increasing) simp_all
    with assms show False by linarith
  qed
qed

lemma binade_eq:
  assumes "- 1022 \<le> e" "e \<le> 1023" "2 powi e \<le> a" "a < 2 powi (e + 1)"
  shows "binade 11 (- 1022) a = e"
proof -
  have "(2::real) powi (- 1022) \<le> 2 powi e"
    using assms(1) by (intro power_int_increasing) simp_all
  with assms(3) have lo: "2 powi (- 1022) \<le> a" by linarith
  have "(2::real) powi (e + 1) \<le> 2 powi (- 1022 + 2 ^ 11)"
    using assms(2) by (intro power_int_increasing) simp_all
  with assms(4) have hi: "a < 2 powi (- 1022 + 2 ^ 11)" by linarith
  from binade_bounds [OF lo hi] assms(3,4) show ?thesis
    by (intro binade_unique [of _ a]) simp_all
qed


lemma round_double_normal:
  assumes "- 1022 \<le> e" "e \<le> 1023" "2 powi e \<le> \<bar>x\<bar>" "\<bar>x\<bar> < 2 powi (e + 1)"
  shows "round_double x =
     (let q = 2 powi (e - 52); r = of_int (round_half_even (\<bar>x\<bar> / q)) * q
      in if 2 powi 1024 \<le> r then signed_inf x else Fin (if x < 0 then - r else r))"
proof -
  have "(2::real) powi (e + 1) \<le> 2 powi 1024"
    using assms(2) by (intro power_int_increasing) simp_all
  with assms(4) have 1: "\<not> 2 powi 1024 \<le> \<bar>x\<bar>" by linarith
  have "(2::real) powi (- 1022) \<le> 2 powi e"
    using assms(1) by (intro power_int_increasing) simp_all
  with assms(3) have 2: "\<not> \<bar>x\<bar> < 2 powi (- 1022)" by linarith
  have 3: "ulp_exponent \<bar>x\<bar> = e - 52"
    using 2 binade_eq [OF assms] by (simp only: ulp_exponent_def if_False)
  show ?thesis
    using 1 by (simp only: round_double_def Let_def 3 if_False)
qed

lemma round_scaled_error:
  assumes "0 < q"
  shows "\<bar>of_int (round_half_even (a / q)) * q - a\<bar> \<le> q / 2"
proof -
  have "of_int (round_half_even (a / q)) * q - a = (of_int (round_half_even (a / q)) - a / q) * q"
    using assms by (simp add: field_simps)
  then have "\<bar>of_int (round_half_even (a / q)) * q - a\<bar> = \<bar>of_int (round_half_even (a / q)) - a / q\<bar> * q"
    using assms by (simp add: abs_mult)
  also have "\<dots> \<le> 1 / 2 * q"
    using assms round_half_even_error [of "a / q"] by (intro mult_right_mono) simp_all
  finally show ?thesis by simp
qed

lemma round_double_subnormal:
  assumes "\<bar>x\<bar> < 2 powi (- 1022)"
  shows "round_double x =
     Fin (let r = of_int (round_half_even (\<bar>x\<bar> / 2 powi (- 1074))) * 2 powi (- 1074)
          in if x < 0 then - r else r)"
proof -
  let ?q = "(2::real) powi (- 1074)"
  let ?r = "of_int (round_half_even (\<bar>x\<bar> / ?q)) * ?q"
  have q: "0 < ?q" by simp
  have "(2::real) powi (- 1022) \<le> 2 powi 1023"
    by (intro power_int_increasing) simp_all
  with assms have 1: "\<not> 2 powi 1024 \<le> \<bar>x\<bar>" and x: "\<bar>x\<bar> < 2 powi 1023"
    using power_int_increasing [of 1023 1024 "2::real"] by auto
  have "?q \<le> 2 powi 1023"
    by (intro power_int_increasing) simp_all
  moreover have "\<bar>?r - \<bar>x\<bar>\<bar> \<le> ?q / 2"
    using q by (rule round_scaled_error)
  ultimately have "?r < 2 powi 1023 + 2 powi 1023"
    using x by linarith
  also have "\<dots> = (2::real) powi 1024" by simp
  finally have 2: "\<not> 2 powi 1024 \<le> ?r" by simp
  have 3: "ulp_exponent \<bar>x\<bar> = - 1074"
    using assms by (simp only: ulp_exponent_def if_True)
  show ?thesis
    using 1 2 by (simp only: round_double_def Let_def 3 if_False)
qed

lemma binade_ge: "lo \<le> binade k lo a"
proof (induction k arbitrary: lo)
  case 0
  show ?case by simp
next
  case (Suc k)
  have "lo \<le> lo + 2 ^ k" by simp
  also have "\<dots> \<le> binade k (lo + 2 ^ k) a" by (rule Suc.IH)
  finally show ?case using Suc.IH [of lo] by simp
qed

text \<open>In the normal range the rounding has a relative error of at most \<^verbatim>\<open>2**-53\<close>.\<close>

lemma round_double_error:
  assumes "2 powi (- 1022) \<le> \<bar>x\<bar>" "\<bar>x\<bar> < 2 powi 1023"
  shows "\<exists>r. round_double x = Fin r \<and> \<bar>r - x\<bar> \<le> \<bar>x\<bar> / 2 ^ 53"
proof -
  define e where "e = binade 11 (- 1022) \<bar>x\<bar>"
  have "(2::real) powi 1023 \<le> 2 powi (- 1022 + 2 ^ 11)"
    by (intro power_int_increasing) simp_all
  with assms(2) have hi: "\<bar>x\<bar> < 2 powi (- 1022 + 2 ^ 11)" by linarith
  from binade_bounds [OF assms(1) hi]
  have lo_e: "2 powi e \<le> \<bar>x\<bar>" and hi_e: "\<bar>x\<bar> < 2 powi (e + 1)"
    by (simp_all add: e_def)
  have e1: "- 1022 \<le> e"
    unfolding e_def by (rule binade_ge)
  have e2: "e \<le> 1022"
  proof (rule ccontr)
    assume "\<not> e \<le> 1022"
    then have "(2::real) powi 1023 \<le> 2 powi e"
      by (intro power_int_increasing) simp_all
    with lo_e assms(2) show False by linarith
  qed
  let ?q = "(2::real) powi (e - 52)"
  let ?r = "of_int (round_half_even (\<bar>x\<bar> / ?q)) * ?q"
  have q: "0 < ?q" by simp
  have q2: "?q / 2 = 2 powi e / 2 ^ 53"
    by (simp add: power_int_diff)
  have err: "\<bar>?r - \<bar>x\<bar>\<bar> \<le> 2 powi e / 2 ^ 53"
    using round_scaled_error [OF q, of "\<bar>x\<bar>"] by (simp only: q2)
  also have "\<dots> \<le> \<bar>x\<bar> / 2 ^ 53"
    using lo_e by (simp add: divide_right_mono)
  finally have err': "\<bar>?r - \<bar>x\<bar>\<bar> \<le> \<bar>x\<bar> / 2 ^ 53" .
  have "\<bar>x\<bar> / 2 ^ 53 \<le> \<bar>x\<bar>"
    by (simp add: field_simps)
  with err' assms(2) have "?r < 2 powi 1023 + 2 powi 1023" by linarith
  also have "\<dots> = (2::real) powi 1024" by simp
  finally have no: "\<not> 2 powi 1024 \<le> ?r" by simp
  have "round_double x = Fin (if x < 0 then - ?r else ?r)"
    using round_double_normal [OF e1 _ lo_e hi_e] e2 no by (simp add: Let_def)
  moreover have "\<bar>(if x < 0 then - ?r else ?r) - x\<bar> = \<bar>?r - \<bar>x\<bar>\<bar>"
    by (cases "x < 0") (simp_all add: abs_minus_commute)
  ultimately show ?thesis
    using err' by auto
qed

section \<open>Some roundings\<close>

lemma round_half_even_numeral:
  "round_half_even (numeral n / numeral d) =
     (let k = numeral n div numeral d; r = numeral n mod numeral d :: int
      in if 2 * r < numeral d then k else if numeral d < 2 * r then k + 1
         else if even k then k else k + 1)"
  using round_half_even_frac [of "numeral d" "numeral n"] by simp

lemma round_double_0: "round_double 0 = Fin 0"
  using round_double_subnormal [of 0] by (simp add: round_half_even_def)

lemma fl_10: "round_double (10 / 1000000000) = Fin (3022314549036573 / 2 ^ 78)"
  using round_double_normal [of "- 27" "10 / 1000000000"]
  by (simp add: Let_def round_half_even_numeral power_int_minus_divide)

lemma fl_25: "round_double (25 / 1000000000) = Fin (944473296573929 / 2 ^ 75)"
  using round_double_normal [of "- 26" "25 / 1000000000"]
  by (simp add: Let_def round_half_even_numeral power_int_minus_divide)

lemma fl_ratio: "round_double (944473296573929 / 2 ^ 75 / (3022314549036573 / 2 ^ 78)) = Fin (5 / 2)"
  using round_double_normal [of 1 "944473296573929 / 2 ^ 75 / (3022314549036573 / 2 ^ 78)"]
  by (simp add: Let_def round_half_even_numeral power_int_minus_divide)

lemma fl_378525: "round_double (378525 / 1000000000) = Fin (1745638450125227 / 2 ^ 62)"
  using round_double_normal [of "- 12" "378525 / 1000000000"]
  by (simp add: Let_def round_half_even_numeral power_int_minus_divide)

lemma fl_4120: "round_double (4120 / 1000000000) = Fin (4864037477355735 / 2 ^ 70)"
  using round_double_normal [of "- 18" "4120 / 1000000000"]
  by (simp add: Let_def round_half_even_numeral power_int_minus_divide)

lemma fl_ratio2:
  "round_double (1745638450125227 / 2 ^ 62 / (4864037477355735 / 2 ^ 70)) = Fin (6465128371322879 / 2 ^ 46)"
  using round_double_normal [of 6 "1745638450125227 / 2 ^ 62 / (4864037477355735 / 2 ^ 70)"]
  by (simp add: Let_def round_half_even_numeral power_int_minus_divide)

lemma fl_tiny: "round_double (2 powi (- 1070) / 1000000000) = Fin 0"
proof -
  define x :: real where "x = 2 powi (- 1070) / 1000000000"
  have p: "(2::real) powi (- 1070) = 16 * 2 powi (- 1074)"
    by (simp add: power_int_minus_divide)
  have x0: "0 \<le> x" by (simp add: x_def)
  have e: "x / 2 powi (- 1074) = 16 / 1000000000"
    unfolding x_def p by simp
  have "\<bar>x\<bar> = x" using x0 by simp
  then have "round_half_even (\<bar>x\<bar> / 2 powi (- 1074)) = round_half_even (16 / 1000000000)"
    by (simp only: e)
  also have "\<dots> = 0"
    by (simp only: round_half_even_numeral Let_def) simp
  finally have r: "round_half_even (\<bar>x\<bar> / 2 powi (- 1074)) = 0" .
  have "x \<le> 2 powi (- 1070)"
    by (simp add: x_def field_simps)
  also have "\<dots> < (2::real) powi (- 1022)"
    by (intro power_int_strict_increasing) simp_all
  finally have "\<bar>x\<bar> < 2 powi (- 1022)"
    using x0 by simp
  from round_double_subnormal [OF this] have "round_double x = Fin 0"
    by (simp only: Let_def r) simp
  then show ?thesis by (simp only: x_def)
qed

lemma quotient_error:
  fixes a b g S E :: real
  assumes a: "\<bar>a - S\<bar> \<le> \<bar>S\<bar> / 2 ^ 53"
    and b: "\<bar>b - E\<bar> \<le> \<bar>E\<bar> / 2 ^ 53"
    and S: "S \<noteq> 0"
  shows "a \<noteq> 0" and "\<bar>b / a - E / S\<bar> \<le> \<bar>E / S\<bar> / 2 ^ 51"
proof -
  have Spos: "0 < \<bar>S\<bar>" using S by simp
  have "\<bar>S\<bar> / 2 ^ 53 \<le> \<bar>S\<bar> / 2"
    by (intro divide_left_mono) simp_all
  with a have alo: "\<bar>S\<bar> / 2 \<le> \<bar>a\<bar>"
    by linarith
  with Spos show a0: "a \<noteq> 0" by auto
  have apos: "0 < \<bar>a\<bar>" using a0 by simp
  have "b / a - E / S = ((b - E) * S - E * (a - S)) / (a * S)"
    using a0 S by (simp add: field_simps)
  then have "\<bar>b / a - E / S\<bar> = \<bar>(b - E) * S - E * (a - S)\<bar> / (\<bar>a\<bar> * \<bar>S\<bar>)"
    by (simp add: abs_mult)
  also have "\<dots> \<le> (\<bar>b - E\<bar> * \<bar>S\<bar> + \<bar>E\<bar> * \<bar>a - S\<bar>) / (\<bar>a\<bar> * \<bar>S\<bar>)"
    using apos Spos
    by (intro divide_right_mono) (auto simp flip: abs_mult intro: order_trans [OF abs_triangle_ineq4])
  also have "\<dots> \<le> (\<bar>E\<bar> / 2 ^ 53 * \<bar>S\<bar> + \<bar>E\<bar> * (\<bar>S\<bar> / 2 ^ 53)) / (\<bar>a\<bar> * \<bar>S\<bar>)"
    using apos Spos a b
    by (intro divide_right_mono add_mono mult_right_mono mult_left_mono) simp_all
  also have "\<dots> = \<bar>E\<bar> / 2 ^ 52 / \<bar>a\<bar>"
    using Spos by (simp add: field_simps)
  also have "\<dots> \<le> \<bar>E\<bar> / 2 ^ 52 / (\<bar>S\<bar> / 2)"
    using alo Spos by (intro divide_left_mono) (simp_all add: field_simps)
  also have "\<dots> = \<bar>E / S\<bar> / 2 ^ 51"
    by (simp add: field_simps)
  finally show "\<bar>b / a - E / S\<bar> \<le> \<bar>E / S\<bar> / 2 ^ 51" .
qed

section \<open>Year labels are read back\<close>

lemma digit_val_digit_char: "d < 10 \<Longrightarrow> digit_val (digit_char d) = Some d"
  by (simp add: digit_val_def digit_char_def)

lemma parse_nat_append:
  "parse_nat acc (xs @ ys) = (case parse_nat acc xs of None \<Rightarrow> None | Some m \<Rightarrow> parse_nat m ys)"
  by (induction xs arbitrary: acc) (auto split: option.splits)

lemma parse_nat_str_nat: "parse_nat 0 (str_nat n) = Some n"
proof (induction n rule: str_nat.induct)
  case (1 n)
  show ?case
  proof (cases "n < 10")
    case True
    then show ?thesis by (subst str_nat.simps) (simp add: digit_val_digit_char)
  next
    case False
    with 1 have "parse_nat 0 (str_nat (n div 10)) = Some (n div 10)" by simp
    with False show ?thesis
      by (subst str_nat.simps) (simp add: parse_nat_append digit_val_digit_char)
  qed
qed

lemma str_nat_not_Nil: "str_nat n \<noteq> []"
  by (subst str_nat.simps) simp

lemma hd_str_nat: "hd (str_nat n) \<noteq> CHR ''-''"
proof (induction n rule: str_nat.induct)
  case (1 n)
  show ?case
  proof (cases "n < 10")
    case True
    then have "digit_val (hd (str_nat n)) = Some n"
      by (subst str_nat.simps) (simp add: digit_val_digit_char)
    then show ?thesis by (auto simp: digit_val_def)
  next
    case False
    with 1 have "hd (str_nat (n div 10)) \<noteq> CHR ''-''" by simp
    with False show ?thesis
      by (subst str_nat.simps) (simp add: str_nat_not_Nil)
  qed
qed

lemma to_numeric_str: "to_numeric (str i) = Inr i"
proof (cases "i < 0")
  case True
  obtain c cs where cs: "str_nat (nat (- i)) = c # cs"
    using str_nat_not_Nil [of "nat (- i)"] by (cases "str_nat (nat (- i))") auto
  have "parse_nat 0 (c # cs) = Some (nat (- i))"
    using parse_nat_str_nat [of "nat (- i)"] by (simp only: cs)
  with True show ?thesis
    by (simp add: to_numeric_def str_def cs del: parse_nat.simps)
next
  case False
  obtain c cs where cs: "str_nat (nat i) = c # cs"
    using str_nat_not_Nil [of "nat i"] by (cases "str_nat (nat i)") auto
  have p: "parse_nat 0 (c # cs) = Some (nat i)"
    using parse_nat_str_nat [of "nat i"] by (simp only: cs)
  have "c \<noteq> CHR ''-''"
    using hd_str_nat [of "nat i"] by (simp add: cs)
  with False p show ?thesis
    by (simp add: to_numeric_def str_def cs del: parse_nat.simps)
qed

lemma inj_str: "inj str"
proof (rule injI)
  fix a b assume "str a = str b"
  then have "to_numeric (str a) = to_numeric (str b)" by simp
  then show "a = b" by (simp add: to_numeric_str)
qed

section \<open>What the pivot returns\<close>

lemma concat_map_product:
  "concat (map (\<lambda>y. map (F y) ws) ys) = map (\<lambda>(y, w). F y w) (List.product ys ws)"
  by (induction ys) simp_all

lemma to_numeric_Year_str:
  "to_numeric_Year (map (\<lambda>(y, w). \<lparr>Country_Name = w ''Country Name'', Country_Code = w ''Country Code'',
                                     Year = str y, GDP = w (str y)\<rparr>) yws) =
   Inr (map (\<lambda>(y, w). \<lparr>Country_Name = w ''Country Name'', Country_Code = w ''Country Code'',
                         Year = y, GDP = w (str y)\<rparr>) yws)"
  by (induction yws) (auto simp: to_numeric_str)

lemma melt_year_cols:
  assumes "set (id_vars @ year_cols lo hi) \<subseteq> set (columns df)"
  shows "melt df (year_cols lo hi) =
      Inr (map (\<lambda>(y, w). \<lparr>Country_Name = w ''Country Name'', Country_Code = w ''Country Code'',
                         Year = str y, GDP = w (str y)\<rparr>) (List.product [lo..hi] (rows df)))"
proof -
  have "filter (\<lambda>l. l \<notin> set (columns df)) (id_vars @ year_cols lo hi) = []"
    using assms by (auto simp: filter_empty_conv)
  then show ?thesis
    by (simp add: melt_def year_cols_def concat_map_product map_concat comp_def)
qed

lemma columns_read_csv: "columns (read_csv num_of file) = header file"
  by (simp add: read_csv_def)

text \<open>
  The pivot either stops at the selection of the columns, with the labels the header
  lacks, or returns the long table of the specification.
\<close>

lemma get_gdp_data_range_eq:
  "get_gdp_data_range lo hi num_of file =
     (let missing = filter (\<lambda>l. l \<notin> set (header file)) (required_columns lo hi)
      in if missing = [] then Inr (spec_long_table lo hi (read_csv num_of file))
         else Inl (KeyError missing))"
proof -
  define raw where "raw = read_csv num_of file"
  define missing where "missing = filter (\<lambda>l. l \<notin> set (columns raw)) (required_columns lo hi)"
  have g: "getitem_columns raw (required_columns lo hi) =
      (if missing = [] then Inr (raw\<lparr>columns := required_columns lo hi\<rparr>) else Inl (KeyError missing))"
    by (simp add: getitem_columns_def missing_def)
  have m: "melt (raw\<lparr>columns := required_columns lo hi\<rparr>) (year_cols lo hi) =
      Inr (map (\<lambda>(y, w). \<lparr>Country_Name = w ''Country Name'', Country_Code = w ''Country Code'',
                         Year = str y, GDP = w (str y)\<rparr>) (List.product [lo..hi] (rows raw)))"
    using melt_year_cols [of lo hi "raw\<lparr>columns := required_columns lo hi\<rparr>"]
    by (simp add: required_columns_def id_vars_def)
  have "get_gdp_data_range lo hi num_of file =
      (case getitem_columns raw (required_columns lo hi) of Inl e \<Rightarrow> Inl e
       | Inr df \<Rightarrow> (case melt df (year_cols lo hi) of Inl e \<Rightarrow> Inl e | Inr t \<Rightarrow> to_numeric_Year t))"
    by (simp add: get_gdp_data_range_def raw_def required_columns_def)
  also have "\<dots> = (if missing = [] then Inr (spec_long_table lo hi raw) else Inl (KeyError missing))"
    by (simp add: g m to_numeric_Year_str spec_long_table_def)
  finally show ?thesis
    by (simp add: missing_def raw_def columns_read_csv)
qed

section \<open>What the lookup and the loop return\<close>

lemma except_IndexError_billions: "except_IndexError (billions v) = billions v"
  by (auto simp: billions_def split: cell.splits pyfloat.splits)

text \<open>The lookup takes the first record of the pair, and NaN when there is none.\<close>

lemma gdp_lookup_find:
  "gdp_lookup (filter (\<lambda>r. Year r = y) gdp_df) code =
     (case spec_locate gdp_df code y of None \<Rightarrow> Inr NaN | Some r \<Rightarrow> billions (GDP r))"
proof (induction gdp_df)
  case Nil
  show ?case by (simp add: gdp_lookup_def iat0_def spec_locate_def)
next
  case (Cons r rs)
  then show ?case
    by (auto simp: gdp_lookup_def iat0_def spec_locate_def except_IndexError_billions)
qed

lemma metrics_loop_length:
  "metrics_loop f l i cs = Inr ts \<Longrightarrow> length ts = length cs"
  by (induction cs arbitrary: i ts) (auto split: sum.splits)

lemma metrics_loop_nth:
  "metrics_loop f l i cs = Inr ts \<Longrightarrow> k < length cs \<Longrightarrow> metric f l (i + k) (cs ! k) = Inr (ts ! k)"
proof (induction cs arbitrary: i ts k)
  case Nil
  then show ?case by simp
next
  case (Cons c cs)
  from Cons.prems obtain t ts' where t: "metric f l i c = Inr t"
    and ts': "metrics_loop f l (Suc i) cs = Inr ts'" and ts: "ts = t # ts'"
    by (auto split: sum.splits)
  show ?case
  proof (cases k)
    case 0
    with t ts show ?thesis by simp
  next
    case (Suc j)
    with Cons.prems have "j < length cs" by simp
    from Cons.IH [OF ts' this] Suc ts show ?thesis by simp
  qed
qed


lemma billions_float: "\<exists>x. billions (Float v) = Inr x"
  by (cases v) (simp_all add: billions_def)

lemma gdp_lookup_float:
  assumes "float_GDP gdp_df"
  shows "\<exists>x. gdp_lookup (filter (\<lambda>r. Year r = y) gdp_df) code = Inr x"
proof (cases "spec_locate gdp_df code y")
  case None
  then show ?thesis by (simp add: gdp_lookup_find)
next
  case (Some r)
  then have "r \<in> set gdp_df"
    by (auto simp: spec_locate_def find_Some_iff)
  with assms obtain v where "GDP r = Float v"
    by (cases "GDP r") (auto simp: float_GDP_def list_all_iff split: cell.splits)
  with Some show ?thesis
    using billions_float [of v] by (simp add: gdp_lookup_find)
qed

text \<open>The division of the loop is never by zero: it stands behind the test.\<close>

lemma growth_total:
  "\<exists>g. (if isnan a \<or> a = Fin 0 then Inr (NA, Off)
         else (case truediv b a of Inl e \<Rightarrow> Inl e | Inr q \<Rightarrow> Inr (Formatted q, Normal))) = Inr g"
  by (cases a; cases b) (auto simp: isnan_def)

lemma metric_float:
  assumes "float_GDP gdp_df"
  shows "\<exists>t. metric (filter (\<lambda>r. Year r = y0) gdp_df) (filter (\<lambda>r. Year r = y1) gdp_df) i code = Inr t"
proof -
  obtain a where a: "gdp_lookup (filter (\<lambda>r. Year r = y0) gdp_df) code = Inr a"
    using gdp_lookup_float [OF assms] by blast
  obtain b where b: "gdp_lookup (filter (\<lambda>r. Year r = y1) gdp_df) code = Inr b"
    using gdp_lookup_float [OF assms] by blast
  obtain g where g: "(if isnan a \<or> a = Fin 0 then Inr (NA, Off)
         else (case truediv b a of Inl e \<Rightarrow> Inl e | Inr q \<Rightarrow> Inr (Formatted q, Normal))) = Inr g"
    using growth_total by blast
  show ?thesis
    by (simp add: metric_def a b g split: prod.splits)
qed

lemma metrics_loop_float:
  assumes "float_GDP gdp_df"
  shows "\<exists>ts. metrics_loop (filter (\<lambda>r. Year r = y0) gdp_df) (filter (\<lambda>r. Year r = y1) gdp_df) i cs = Inr ts"
proof (induction cs arbitrary: i)
  case Nil
  show ?case by simp
next
  case (Cons c cs)
  obtain t where "metric (filter (\<lambda>r. Year r = y0) gdp_df) (filter (\<lambda>r. Year r = y1) gdp_df) i c = Inr t"
    using metric_float [OF assms] by blast
  moreover obtain ts where "metrics_loop (filter (\<lambda>r. Year r = y0) gdp_df) (filter (\<lambda>r. Year r = y1) gdp_df) (Suc i) cs = Inr ts"
    using Cons.IH by blast
  ultimately show ?case by simp
qed

lemma metrics_float: "float_GDP gdp_df \<Longrightarrow> \<exists>ts. metrics gdp_df sel y0 y1 = Inr ts"
  by (simp add: metrics_def metrics_loop_float)

text \<open>
  The only exception the loop can end with is the \<open>TypeError\<close> of a text in the
  \<^verbatim>\<open>GDP\<close> column: a missing record or a missing value raises nothing, and nothing is
  divided by zero.
\<close>

lemma billions_error: "billions v = Inl e \<Longrightarrow> e = TypeError"
  by (auto simp: billions_def split: cell.splits pyfloat.splits)

lemma gdp_lookup_error: "gdp_lookup (filter (\<lambda>r. Year r = y) gdp_df) code = Inl e \<Longrightarrow> e = TypeError"
  by (auto simp: gdp_lookup_find split: option.splits dest: billions_error)

lemma metric_error:
  assumes "metric (filter (\<lambda>r. Year r = y0) gdp_df) (filter (\<lambda>r. Year r = y1) gdp_df) i code = Inl e"
  shows "e = TypeError"
proof -
  have g: "\<And>a b. (if isnan a \<or> a = Fin 0 then Inr (NA, Off)
         else (case truediv b a of Inl e \<Rightarrow> Inl e | Inr q \<Rightarrow> Inr (Formatted q, Normal))) \<noteq> Inl e"
    using growth_total by (metis sum.distinct(1))
  show ?thesis
    using assms g
    by (auto simp: metric_def split: sum.splits dest: gdp_lookup_error)
qed

lemma metrics_loop_error:
  "metrics_loop (filter (\<lambda>r. Year r = y0) gdp_df) (filter (\<lambda>r. Year r = y1) gdp_df) i cs = Inl e
     \<Longrightarrow> e = TypeError"
  by (induction cs arbitrary: i) (auto split: sum.splits dest: metric_error)

lemma metrics_error: "metrics gdp_df selected y0 y1 = Inl e \<Longrightarrow> e = TypeError"
  by (simp add: metrics_def metrics_loop_error)

text \<open>
  The growth is \<^verbatim>\<open>'n/a'\<close> when the start year has no record of the code, or a record
  whose value is missing or zero.
\<close>

lemma growth_absent_when_start_absent_or_zero:
  assumes "metric (filter (\<lambda>r. Year r = y0) gdp_df) (filter (\<lambda>r. Year r = y1) gdp_df) i code = Inr t"
    and "spec_locate gdp_df code y0 = None \<or>
         (\<exists>r. spec_locate gdp_df code y0 = Some r \<and> (GDP r = Float NaN \<or> GDP r = Float (Fin 0)))"
  shows "tile_delta t = NA \<and> tile_delta_color t = Off"
proof -
  from assms(2) have "gdp_lookup (filter (\<lambda>r. Year r = y0) gdp_df) code = Inr NaN \<or>
      gdp_lookup (filter (\<lambda>r. Year r = y0) gdp_df) code = Inr (Fin 0)"
    by (auto simp: gdp_lookup_find billions_def round_double_0)
  with assms(1) show ?thesis
    by (auto simp: metric_def isnan_def split: sum.splits)
qed

lemma metric_growth:
  assumes "gdp_lookup f c = Inr (Fin a)" "gdp_lookup l c = Inr (Fin b)" "a \<noteq> 0"
  shows "metric f l i c = Inr \<lparr>tile_column = i mod 4, tile_label = c @ '' GDP'',
           tile_value = Formatted (Fin b), tile_delta = Formatted (round_double (b / a)),
           tile_delta_color = Normal\<rparr>"
  using assms by (simp add: metric_def isnan_def)


section \<open>The storage order of a table with unique keys\<close>

lemma filter_same_key_short:
  assumes "distinct (map f xs)" and "\<And>x. P x \<Longrightarrow> f x = k"
  shows "length (filter P xs) \<le> 1"
  using assms(1)
proof (induction xs)
  case Nil
  show ?case by simp
next
  case (Cons x xs)
  show ?case
  proof (cases "P x")
    case True
    then have "f x = k" by (rule assms(2))
    with Cons.prems have "\<forall>y \<in> set xs. \<not> P y"
      using assms(2) by (auto simp: image_iff)
    then have "filter P xs = []" by (simp add: filter_empty_conv)
    with True show ?thesis by simp
  next
    case False
    with Cons show ?thesis by simp
  qed
qed

lemma short_lists_mset_eq:
  assumes "mset xs = mset ys" and "length ys \<le> 1"
  shows "xs = ys"
proof -
  have l: "length xs = length ys"
    using assms(1) by (rule mset_eq_length)
  show ?thesis
  proof (cases ys)
    case Nil
    with assms(1) show ?thesis by simp
  next
    case (Cons y ys')
    with assms(2) have ys: "ys = [y]" by simp
    with l obtain x where xs: "xs = [x]"
      by (cases xs) auto
    with ys assms(1) show ?thesis by simp
  qed
qed

lemma find_filter_hd: "find P xs = (case filter P xs of [] \<Rightarrow> None | x # _ \<Rightarrow> Some x)"
  by (induction xs) simp_all

lemma spec_locate_mset:
  assumes "mset gdp_df' = mset gdp_df" and "distinct (map entity_year gdp_df)"
  shows "spec_locate gdp_df' code y = spec_locate gdp_df code y"
proof -
  let ?P = "\<lambda>r. Year r = y \<and> Country_Code r = Str code"
  have "length (filter ?P gdp_df) \<le> 1"
    using assms(2) by (rule filter_same_key_short [where k = "(Str code, y)"]) (simp add: entity_year_def)
  moreover have "mset (filter ?P gdp_df') = mset (filter ?P gdp_df)"
    using assms(1) by (metis mset_filter)
  ultimately have "filter ?P gdp_df' = filter ?P gdp_df"
    by (rule short_lists_mset_eq [rotated])
  then show ?thesis
    by (simp add: spec_locate_def find_filter_hd)
qed

lemma metric_cong:
  assumes "gdp_lookup f' c = gdp_lookup f c" and "gdp_lookup l' c = gdp_lookup l c"
  shows "metric f' l' i c = metric f l i c"
  unfolding metric_def assms ..

lemma metrics_loop_cong:
  assumes "\<And>c. gdp_lookup f' c = gdp_lookup f c" and "\<And>c. gdp_lookup l' c = gdp_lookup l c"
  shows "metrics_loop f' l' i cs = metrics_loop f l i cs"
proof (induction cs arbitrary: i)
  case Nil
  show ?case by simp
next
  case (Cons c cs)
  have "metric f' l' i c = metric f l i c"
    by (rule metric_cong) (rule assms)+
  with Cons.IH show ?case by (simp split: sum.splits)
qed

lemma metrics_mset:
  assumes "mset gdp_df' = mset gdp_df" and "distinct (map entity_year gdp_df)"
  shows "metrics gdp_df' selected y0 y1 = metrics gdp_df selected y0 y1"
  unfolding metrics_def Let_def
  by (rule metrics_loop_cong) (simp_all add: gdp_lookup_find spec_locate_mset [OF assms])

section \<open>The long table of the pivot\<close>

lemma get_gdp_data_range_ok:
  assumes "set (required_columns lo hi) \<subseteq> set (header file)"
  shows "get_gdp_data_range lo hi num_of file = Inr (spec_long_table lo hi (read_csv num_of file))"
proof -
  have "filter (\<lambda>l. l \<notin> set (header file)) (required_columns lo hi) = []"
    using assms by (auto simp: filter_empty_conv)
  then show ?thesis
    by (simp add: get_gdp_data_range_eq)
qed

lemma length_spec_long_table:
  "length (spec_long_table lo hi df) = length (rows df) * nat (hi - lo + 1)"
  by (simp add: spec_long_table_def)

lemma rows_read_csv_length: "length (rows (read_csv num_of file)) = length (records file)"
  by (simp add: read_csv_def)

lemma product_map_right:
  "List.product xs (map f ys) = map (\<lambda>(x, y). (x, f y)) (List.product xs ys)"
  by (induction xs) simp_all

lemma entity_year_spec_long_table:
  "map entity_year (spec_long_table lo hi df) =
     map (\<lambda>(y, c). (c, y)) (List.product [lo..hi] (map (\<lambda>w. w ''Country Code'') (rows df)))"
  by (simp add: spec_long_table_def product_map_right entity_year_def split_def comp_def)

lemma distinct_spec_long_table:
  assumes "distinct (map (\<lambda>w. w ''Country Code'') (rows df))"
  shows "distinct (map entity_year (spec_long_table lo hi df))"
proof -
  have "distinct (List.product [lo..hi] (map (\<lambda>w. w ''Country Code'') (rows df)))"
    using assms by (simp add: distinct_product)
  moreover have "inj (\<lambda>(y :: int, c :: cell). (c, y))"
    by (auto simp: inj_on_def)
  ultimately show ?thesis
    unfolding entity_year_spec_long_table
    by (simp add: distinct_map inj_on_subset [OF _ subset_UNIV])
qed

lemma set_spec_long_table:
  "set (spec_long_table lo hi df) =
     (\<lambda>(y, w). \<lparr>Country_Name = w ''Country Name'', Country_Code = w ''Country Code'',
                 Year = y, GDP = w (str y)\<rparr>) ` ({lo..hi} \<times> set (rows df))"
  by (simp add: spec_long_table_def)

section \<open>The example file\<close>

lemma str_2020: "str 2020 = ''2020''"
  by code_simp

lemma str_2021: "str 2021 = ''2021''"
  by code_simp

lemma upto_2020_2021: "[2020..2021] = [2020, 2021::int]"
  by (simp add: upto.simps)

lemma required_2020_2021:
  "required_columns 2020 2021 = [''Country Name'', ''Country Code'', ''2020'', ''2021'']"
  by (simp add: required_columns_def year_cols_def upto_2020_2021 str_2020 str_2021)

lemma example_file_columns: "set (required_columns 2020 2021) \<subseteq> set (header example_file)"
  by (simp add: required_2020_2021 example_file_def)

lemma example_codes:
  "map (\<lambda>w. w ''Country Code'') (rows (read_csv example_num_of example_file)) = [Str ''DEU'', Str ''FRA'']"
  by (simp add: read_csv_def example_file_def convert_field_def numeric_column_def is_na_def
      na_values_def default_na_values_def example_num_of_def)

lemma example_file_records: "length (records example_file) = 2"
  by (simp add: example_file_def)

lemma example_file_sentinel: "(records example_file ! 1) (str 2020) = ''..''"
  by (simp add: example_file_def str_2020)

section \<open>Missing-value tokens and positions in the long table\<close>

lemma is_na_sentinel: "is_na ''..''"
  by (simp add: is_na_def na_values_def)

lemma convert_field_na: "is_na tok \<Longrightarrow> convert_field num_of numeric tok = Float NaN"
  by (simp add: convert_field_def)

lemma index_div_mod: "i < (m::nat) \<Longrightarrow> (k * m + i) div m = k \<and> (k * m + i) mod m = i"
  by simp

text \<open>The record of row \<open>i\<close> and year \<open>y\<close> stands after the records of the earlier years.\<close>

lemma spec_long_table_nth:
  assumes "i < length (rows df)" and "lo \<le> y" and "y \<le> hi"
  shows "spec_long_table lo hi df ! (nat (y - lo) * length (rows df) + i) =
           \<lparr>Country_Name = (rows df ! i) ''Country Name'', Country_Code = (rows df ! i) ''Country Code'',
            Year = y, GDP = (rows df ! i) (str y)\<rparr>"
proof -
  let ?m = "length (rows df)"
  let ?n = "nat (y - lo) * ?m + i"
  have k: "nat (y - lo) < length [lo..hi]"
    using assms(2,3) by simp
  have "?n < Suc (nat (y - lo)) * ?m"
    using assms(1) by simp
  also have "\<dots> \<le> length [lo..hi] * ?m"
    by (rule mult_le_mono1) (rule Suc_leI [OF k])
  finally have n: "?n < length [lo..hi] * ?m" .
  have d: "?n div ?m = nat (y - lo)" and m: "?n mod ?m = i"
    using index_div_mod [OF assms(1)] by blast+
  have "List.product [lo..hi] (rows df) ! ?n = ([lo..hi] ! nat (y - lo), rows df ! i)"
    using product_nth [OF n] by (simp only: d m)
  moreover have "[lo..hi] ! nat (y - lo) = y"
    using assms(2,3) by simp
  ultimately show ?thesis
    using n by (simp add: spec_long_table_def)
qed

section \<open>When the lookup finds no record\<close>

lemma iat0_IndexError: "(iat0 xs = Inl IndexError) = (xs = [])"
  by (cases xs) (simp_all add: iat0_def)

lemma codes_spec_long_table:
  assumes "lo \<le> y" and "y \<le> hi"
  shows "(\<exists>r \<in> set (spec_long_table lo hi df). Year r = y \<and> Country_Code r = c) =
         (c \<in> Country_Code ` set (spec_long_table lo hi df))"
  using assms by (auto simp: set_spec_long_table image_iff)

lemma spec_locate_Some:
  "spec_locate gdp_df code y = Some r \<Longrightarrow> r \<in> set gdp_df \<and> Year r = y \<and> Country_Code r = Str code"
  by (auto simp: spec_locate_def find_Some_iff)

lemma spec_locate_None:
  "(spec_locate gdp_df code y = None) = (\<not> (\<exists>r \<in> set gdp_df. Year r = y \<and> Country_Code r = Str code))"
  by (auto simp: spec_locate_def find_None_iff)

section \<open>The loop on the example tables\<close>

lemma round_half_even_whole: "round_half_even (numeral n) = numeral n"
  by (simp add: round_half_even_def)

lemma fl_735_8: "round_double (378525 / 4120) = Fin (735 / 8)"
proof -
  have "round_double (735 / 8) = Fin (735 / 8)"
    using round_double_normal [of 6 "735 / 8"]
    by (simp add: Let_def round_half_even_whole power_int_minus_divide)
  then show ?thesis by simp
qed

lemma billions_NaN: "billions (Float NaN) = Inr NaN"
  by (simp add: billions_def)

lemma billions_10: "billions (Float (Fin 10)) = Inr (Fin (3022314549036573 / 2 ^ 78))"
  by (simp only: billions_def cell.case pyfloat.case fl_10)

lemma billions_25: "billions (Float (Fin 25)) = Inr (Fin (944473296573929 / 2 ^ 75))"
  by (simp only: billions_def cell.case pyfloat.case fl_25)

lemma billions_4120: "billions (Float (Fin 4120)) = Inr (Fin (4864037477355735 / 2 ^ 70))"
  by (simp only: billions_def cell.case pyfloat.case fl_4120)

lemma billions_378525: "billions (Float (Fin 378525)) = Inr (Fin (1745638450125227 / 2 ^ 62))"
  by (simp only: billions_def cell.case pyfloat.case fl_378525)

lemma billions_tiny: "billions (Float (Fin (2 powi (- 1070)))) = Inr (Fin 0)"
  by (simp only: billions_def cell.case pyfloat.case fl_tiny)

text \<open>The loop on one selected code whose two values are finite.\<close>

lemma metrics_one:
  assumes "gdp_lookup (filter (\<lambda>r. Year r = y0) gdp_df) c = Inr (Fin a)"
    and "gdp_lookup (filter (\<lambda>r. Year r = y1) gdp_df) c = Inr (Fin b)"
    and "a \<noteq> 0" and "round_double (b / a) = g" and "c @ '' GDP'' = l"
  shows "metrics gdp_df [c] y0 y1 =
     Inr [\<lparr>tile_column = 0, tile_label = l, tile_value = Formatted (Fin b),
           tile_delta = Formatted g, tile_delta_color = Normal\<rparr>]"
  using assms by (simp add: metrics_def metric_def isnan_def)

lemma metrics_one_zero:
  assumes "gdp_lookup (filter (\<lambda>r. Year r = y0) gdp_df) c = Inr (Fin 0)"
    and "gdp_lookup (filter (\<lambda>r. Year r = y1) gdp_df) c = Inr (Fin b)"
    and "c @ '' GDP'' = l"
  shows "metrics gdp_df [c] y0 y1 =
     Inr [\<lparr>tile_column = 0, tile_label = l, tile_value = Formatted (Fin b),
           tile_delta = NA, tile_delta_color = Off\<rparr>]"
  using assms by (simp add: metrics_def metric_def isnan_def)

lemma growth_table_2020:
  "gdp_lookup (filter (\<lambda>r. Year r = 2020) growth_table) ''DEU'' = Inr (Fin (3022314549036573 / 2 ^ 78))"
  by (simp add: gdp_lookup_def iat0_def growth_table_def billions_10 del: power_numeral)

lemma growth_table_2021:
  "gdp_lookup (filter (\<lambda>r. Year r = 2021) growth_table) ''DEU'' = Inr (Fin (944473296573929 / 2 ^ 75))"
  by (simp add: gdp_lookup_def iat0_def growth_table_def billions_25 del: power_numeral)

lemma growth_table_tiles:
  "metrics growth_table [''DEU''] 2020 2021 =
     Inr [\<lparr>tile_column = 0, tile_label = ''DEU GDP'', tile_value = Formatted (Fin (944473296573929 / 2 ^ 75)),
           tile_delta = Formatted (Fin (5 / 2)), tile_delta_color = Normal\<rparr>]"
  by (rule metrics_one [OF growth_table_2020 growth_table_2021 _ fl_ratio]) simp_all

lemma dup_table_2020:
  "gdp_lookup (filter (\<lambda>r. Year r = 2020) dup_table) ''DEU'' = Inr (Fin (3022314549036573 / 2 ^ 78))"
  by (simp add: gdp_lookup_def iat0_def dup_table_def billions_10 del: power_numeral)

lemma dup_table_2021:
  "gdp_lookup (filter (\<lambda>r. Year r = 2021) dup_table) ''DEU'' = Inr (Fin (944473296573929 / 2 ^ 75))"
  by (simp add: gdp_lookup_def iat0_def dup_table_def billions_25 del: power_numeral)

lemma ratio_table_2020:
  "gdp_lookup (filter (\<lambda>r. Year r = 2020) ratio_table) ''DEU'' = Inr (Fin (4864037477355735 / 2 ^ 70))"
  by (simp add: gdp_lookup_def iat0_def ratio_table_def billions_4120 del: power_numeral)

lemma ratio_table_2021:
  "gdp_lookup (filter (\<lambda>r. Year r = 2021) ratio_table) ''DEU'' = Inr (Fin (1745638450125227 / 2 ^ 62))"
  by (simp add: gdp_lookup_def iat0_def ratio_table_def billions_378525 del: power_numeral)

lemma tiny_table_2020:
  "gdp_lookup (filter (\<lambda>r. Year r = 2020) tiny_table) ''DEU'' = Inr (Fin 0)"
  by (simp add: gdp_lookup_def iat0_def tiny_table_def billions_tiny
      del: power_numeral power_int_numeral_neg_numeral)

lemma tiny_table_2021:
  "gdp_lookup (filter (\<lambda>r. Year r = 2021) tiny_table) ''DEU'' = Inr (Fin (944473296573929 / 2 ^ 75))"
  by (simp add: gdp_lookup_def iat0_def tiny_table_def billions_25
      del: power_numeral power_int_numeral_neg_numeral)

section \<open>The quotient of two values in billions\<close>

text \<open>
  For two values between \<^verbatim>\<open>2**-500\<close> and \<^verbatim>\<open>2**500\<close> in magnitude, the three
  divisions of the loop stay in the normal range of the doubles, and their roundings
  move the quotient by a relative error of at most \<^verbatim>\<open>2**-50\<close>.
\<close>

lemma billion_range: "(1::real) \<le> 1000000000" "(1000000000::real) \<le> 2 powi 522"
proof -
  show "(1::real) \<le> 1000000000" by simp
  have "(1000000000::real) \<le> 2 powi 30" by simp
  also have "\<dots> \<le> 2 powi 522" by (intro power_int_increasing) simp_all
  finally show "(1000000000::real) \<le> 2 powi 522" .
qed

lemma billions_in_range:
  fixes s :: real
  assumes "2 powi (- 500) \<le> \<bar>s\<bar>" "\<bar>s\<bar> \<le> 2 powi 500"
  shows "2 powi (- 1022) \<le> \<bar>s / 1000000000\<bar>" and "\<bar>s / 1000000000\<bar> < 2 powi 1023"
    and "s / 1000000000 \<noteq> 0"
proof -
  have "(2::real) powi (- 1022) * 1000000000 \<le> 2 powi (- 1022) * 2 powi 522"
    using billion_range(2) by (intro mult_left_mono) simp_all
  also have "\<dots> = (2::real) powi (- 500)"
    by (simp flip: power_int_add)
  finally have "(2::real) powi (- 1022) * 1000000000 \<le> \<bar>s\<bar>"
    using assms(1) by linarith
  then show lo: "2 powi (- 1022) \<le> \<bar>s / 1000000000\<bar>"
    by (simp add: pos_le_divide_eq)
  have "\<bar>s / 1000000000\<bar> \<le> \<bar>s\<bar>"
    by (simp add: field_simps)
  also have "\<dots> \<le> 2 powi 500" by (rule assms(2))
  also have "\<dots> < (2::real) powi 1023"
    by (intro power_int_strict_increasing) simp_all
  finally show "\<bar>s / 1000000000\<bar> < 2 powi 1023" .
  have "(0::real) < 2 powi (- 1022)" by simp
  with lo show "s / 1000000000 \<noteq> 0" by auto
qed

lemma double_quotient:
  fixes s e :: real
  assumes s: "2 powi (- 500) \<le> \<bar>s\<bar>" "\<bar>s\<bar> \<le> 2 powi 500"
    and e: "2 powi (- 500) \<le> \<bar>e\<bar>" "\<bar>e\<bar> \<le> 2 powi 500"
  shows "\<exists>a b g. round_double (s / 1000000000) = Fin a \<and> a \<noteq> 0 \<and>
           round_double (e / 1000000000) = Fin b \<and> round_double (b / a) = Fin g \<and>
           \<bar>g - e / s\<bar> \<le> \<bar>e / s\<bar> / 2 ^ 50"
proof -
  let ?S = "s / 1000000000" and ?E = "e / 1000000000"
  define R where "R = \<bar>e / s\<bar>"
  obtain a where a: "round_double ?S = Fin a" and a_err: "\<bar>a - ?S\<bar> \<le> \<bar>?S\<bar> / 2 ^ 53"
    using round_double_error [OF billions_in_range(1,2) [OF s]] by blast
  obtain b where b: "round_double ?E = Fin b" and b_err: "\<bar>b - ?E\<bar> \<le> \<bar>?E\<bar> / 2 ^ 53"
    using round_double_error [OF billions_in_range(1,2) [OF e]] by blast
  have S0: "?S \<noteq> 0" by (rule billions_in_range(3) [OF s])
  have s0: "s \<noteq> 0" using S0 by auto
  have ES: "?E / ?S = e / s" by simp
  have a0: "a \<noteq> 0"
    by (rule quotient_error(1) [OF a_err b_err S0])
  have "\<bar>b / a - ?E / ?S\<bar> \<le> \<bar>?E / ?S\<bar> / 2 ^ 51"
    by (rule quotient_error(2) [OF a_err b_err S0])
  then have q: "\<bar>b / a - e / s\<bar> \<le> R / 2 ^ 51"
    by (simp only: ES R_def)
  have spos: "0 < \<bar>s\<bar>" using s0 by simp
  have R_hi: "R \<le> 2 powi 1000"
  proof -
    have "\<bar>e\<bar> / \<bar>s\<bar> \<le> 2 powi 500 / 2 powi (- 500)"
      using s e spos by (intro frac_le) simp_all
    also have "\<dots> = (2::real) powi 1000"
      by (simp flip: power_int_diff)
    finally show ?thesis by (simp add: R_def)
  qed
  have R_lo: "2 powi (- 1000) \<le> R"
  proof -
    have "(2::real) powi (- 1000) = 2 powi (- 500) / 2 powi 500"
      by (simp flip: power_int_diff)
    also have "\<dots> \<le> \<bar>e\<bar> / \<bar>s\<bar>"
      using s e spos by (intro frac_le) simp_all
    finally show ?thesis by (simp add: R_def)
  qed
  have R0: "0 \<le> R" by (simp add: R_def)
  have ba_hi: "\<bar>b / a\<bar> \<le> 2 * R" and ba_lo: "R / 2 \<le> \<bar>b / a\<bar>"
  proof -
    have h: "R / 2 ^ 51 \<le> R / 2"
      using R0 by (intro divide_left_mono) simp_all
    with q R_def show "\<bar>b / a\<bar> \<le> 2 * R"
      by linarith
    from h q R_def show "R / 2 \<le> \<bar>b / a\<bar>"
      by linarith
  qed
  have "2 * R \<le> 2 * 2 powi 1000" using R_hi by simp
  also have "\<dots> = (2::real) powi 1001" by (simp add: power_int_add [of 2 1 1000, simplified])
  also have "\<dots> < (2::real) powi 1023"
    by (intro power_int_strict_increasing) simp_all
  finally have hi: "\<bar>b / a\<bar> < 2 powi 1023" using ba_hi by linarith
  have "(2::real) powi (- 1022) \<le> 2 powi (- 1001)"
    by (intro power_int_increasing) simp_all
  also have "\<dots> = 2 powi (- 1000) / 2"
    by (simp add: power_int_diff [of 2 "- 1000" 1, simplified])
  also have "\<dots> \<le> R / 2" using R_lo by simp
  finally have lo: "2 powi (- 1022) \<le> \<bar>b / a\<bar>" using ba_lo by linarith
  obtain g where g: "round_double (b / a) = Fin g" and g_err: "\<bar>g - b / a\<bar> \<le> \<bar>b / a\<bar> / 2 ^ 53"
    using round_double_error [OF lo hi] by blast
  have "\<bar>b / a\<bar> / 2 ^ 53 \<le> 2 * R / 2 ^ 53"
    using ba_hi by (intro divide_right_mono) simp_all
  with g_err q have "\<bar>g - e / s\<bar> \<le> 2 * R / 2 ^ 53 + R / 2 ^ 51"
    by linarith
  also have "\<dots> \<le> R / 2 ^ 50"
    using R0 by simp
  finally have "\<bar>g - e / s\<bar> \<le> \<bar>e / s\<bar> / 2 ^ 50"
    by (simp only: R_def)
  with a a0 b g show ?thesis by blast
qed

section \<open>More example files\<close>

lemma dup_file_columns: "set (required_columns 2020 2021) \<subseteq> set (header dup_file)"
  by (simp add: required_2020_2021 dup_file_def)

lemma dup_file_codes:
  "map (\<lambda>w. w ''Country Code'') (rows (read_csv example_num_of dup_file)) = [Str ''DEU'', Str ''DEU'']"
  by (simp add: read_csv_def dup_file_def convert_field_def numeric_column_def is_na_def
      na_values_def default_na_values_def example_num_of_def)








section \<open>The claims\<close>

text \<open>
  C1 (growth absence). The claim: the growth is absent whenever the start value is
  absent, the end value is absent, or the start value is zero, and nothing is raised on
  missing data. The loop tests the start value only (the lemmas above give the growth
  \<^verbatim>\<open>'n/a'\<close> for an absent or zero start value, and no exception but that of a
  text cell). On a table where Germany has the value 10 in 1960 and no value in 2024,
  the selection of \<open>DEU\<close> from 1960 to 2024 gives a tile whose value is \<^verbatim>\<open>'n/a'\<close>,
  whose delta is the formatted NaN (\<^verbatim>\<open>'nanx'\<close>) and whose colour is \<^verbatim>\<open>'normal'\<close>:
  the growth is not reported as absent although the end value is.
\<close>

theorem growth_not_absent_when_end_absent:
  "metrics
     [\<lparr>Country_Name = Str ''Germany'', Country_Code = Str ''DEU'', Year = 1960, GDP = Float (Fin 10)\<rparr>,
      \<lparr>Country_Name = Str ''Germany'', Country_Code = Str ''DEU'', Year = 2024, GDP = Float NaN\<rparr>]
     [''DEU''] 1960 2024 =
   Inr [\<lparr>tile_column = 0, tile_label = ''DEU GDP'', tile_value = NA,
         tile_delta = Formatted NaN, tile_delta_color = Normal\<rparr>]"
  by (simp add: metrics_def metric_def gdp_lookup_def iat0_def billions_10 billions_NaN isnan_def)

text \<open>
  C2 (duplicate pairs), as the claim states it, fails: on a table with two records for
  Germany in 2020 the loop raises nothing and returns the usual tile, computed from the
  first of the two records (the value of the tile is the double of \<^verbatim>\<open>25 / 1e9\<close>).
\<close>

theorem duplicate_pairs_no_error:
  "\<not> distinct (map entity_year dup_table) \<and>
   metrics dup_table [''DEU''] 2020 2021 =
     Inr [\<lparr>tile_column = 0, tile_label = ''DEU GDP'',
           tile_value = Formatted (Fin (944473296573929 / 2 ^ 75)),
           tile_delta = Formatted (Fin (5 / 2)), tile_delta_color = Normal\<rparr>]"
proof -
  have "\<not> distinct (map entity_year dup_table)"
    by (simp add: dup_table_def entity_year_def)
  moreover have "metrics dup_table [''DEU''] 2020 2021 =
     Inr [\<lparr>tile_column = 0, tile_label = ''DEU GDP'',
           tile_value = Formatted (Fin (944473296573929 / 2 ^ 75)),
           tile_delta = Formatted (Fin (5 / 2)), tile_delta_color = Normal\<rparr>]"
    by (rule metrics_one [OF dup_table_2020 dup_table_2021 _ fl_ratio]) simp_all
  ultimately show ?thesis by (rule conjI)
qed

text \<open>
  C2, amended. If the long table contains duplicate pairs of entity code and year, the
  lookup does not fail: it takes the first record of the pair in the order of the table
  (and NaN when the pair has no record), and, the GDP column holding floats, the loop
  returns one tile for each selected code.
\<close>

theorem duplicate_pairs_first_row_is_used:
  assumes "\<not> distinct (map entity_year gdp_df)" and "float_GDP gdp_df"
  shows "(\<exists>ts. metrics gdp_df selected from_year to_year = Inr ts \<and> length ts = length selected) \<and>
         gdp_lookup (filter (\<lambda>r. Year r = y) gdp_df) code =
           (case spec_locate gdp_df code y of None \<Rightarrow> Inr NaN | Some r \<Rightarrow> billions (GDP r))"
proof -
  obtain ts where ts: "metrics gdp_df selected from_year to_year = Inr ts"
    using metrics_float [OF assms(2)] by blast
  then have "length ts = length selected"
    by (simp add: metrics_def metrics_loop_length)
  with ts show ?thesis
    by (simp add: gdp_lookup_find)
qed

theorem duplicate_pairs_first_row_is_used_witness:
  "(\<exists>ts. metrics dup_table [''DEU''] 2020 2021 = Inr ts \<and> length ts = 1) \<and>
   gdp_lookup (filter (\<lambda>r. Year r = 2020) dup_table) ''DEU'' =
     Inr (Fin (3022314549036573 / 2 ^ 78))"
proof -
  have d: "\<not> distinct (map entity_year dup_table)"
    by (simp add: dup_table_def entity_year_def)
  have f: "float_GDP dup_table"
    by (simp add: dup_table_def float_GDP_def)
  have "(\<exists>ts. metrics dup_table [''DEU''] 2020 2021 = Inr ts \<and> length ts = length [''DEU'']) \<and>
      gdp_lookup (filter (\<lambda>r. Year r = 2020) dup_table) ''DEU'' =
        (case spec_locate dup_table ''DEU'' 2020 of None \<Rightarrow> Inr NaN | Some r \<Rightarrow> billions (GDP r))"
    by (rule duplicate_pairs_first_row_is_used [OF d f])
  moreover have "spec_locate dup_table ''DEU'' 2020 = Some (dup_table ! 0)"
    by (simp add: spec_locate_def dup_table_def)
  moreover have "billions (GDP (dup_table ! 0)) = Inr (Fin (3022314549036573 / 2 ^ 78))"
    by (simp add: dup_table_def billions_10 del: power_numeral)
  ultimately show ?thesis
    by (simp del: power_numeral)
qed

text \<open>
  C3 (growth correctness), as the claim states it, fails: the loop divides both values
  by \<^verbatim>\<open>1e9\<close> first, and each division is rounded. With the start value 4120 and the
  end value 378525 the delta is the double just below 91.875 (printed \<^verbatim>\<open>'91.87x'\<close>),
  while the quotient of the two values is 91.875, a double itself. With the start value
  \<^verbatim>\<open>2**-1070\<close>, which is present and not zero, the value in billions is rounded to
  zero and the delta is \<^verbatim>\<open>'n/a'\<close>.
\<close>

theorem growth_differs_from_ratio:
  "metrics ratio_table [''DEU''] 2020 2021 =
     Inr [\<lparr>tile_column = 0, tile_label = ''DEU GDP'',
           tile_value = Formatted (Fin (1745638450125227 / 2 ^ 62)),
           tile_delta = Formatted (Fin (6465128371322879 / 2 ^ 46)), tile_delta_color = Normal\<rparr>] \<and>
   (6465128371322879 / 2 ^ 46 :: real) \<noteq> 378525 / 4120 \<and>
   round_double (378525 / 4120) = Fin (735 / 8) \<and>
   metrics tiny_table [''DEU''] 2020 2021 =
     Inr [\<lparr>tile_column = 0, tile_label = ''DEU GDP'',
           tile_value = Formatted (Fin (944473296573929 / 2 ^ 75)),
           tile_delta = NA, tile_delta_color = Off\<rparr>] \<and>
   (2 powi (- 1070) :: real) \<noteq> 0"
proof -
  have 1: "metrics ratio_table [''DEU''] 2020 2021 =
     Inr [\<lparr>tile_column = 0, tile_label = ''DEU GDP'',
           tile_value = Formatted (Fin (1745638450125227 / 2 ^ 62)),
           tile_delta = Formatted (Fin (6465128371322879 / 2 ^ 46)), tile_delta_color = Normal\<rparr>]"
    by (rule metrics_one [OF ratio_table_2020 ratio_table_2021 _ fl_ratio2]) simp_all
  have 2: "(6465128371322879 / 2 ^ 46 :: real) \<noteq> 378525 / 4120"
    by simp
  have 3: "round_double (378525 / 4120) = Fin (735 / 8)"
    by (rule fl_735_8)
  have 4: "metrics tiny_table [''DEU''] 2020 2021 =
     Inr [\<lparr>tile_column = 0, tile_label = ''DEU GDP'',
           tile_value = Formatted (Fin (944473296573929 / 2 ^ 75)),
           tile_delta = NA, tile_delta_color = Off\<rparr>]"
    by (rule metrics_one_zero [OF tiny_table_2020 tiny_table_2021]) simp
  have 5: "(2 powi (- 1070) :: real) \<noteq> 0"
    by simp
  from 1 2 3 4 5 show ?thesis by blast
qed

text \<open>
  C3, amended. For a selected code whose start value and end value are both present,
  with magnitudes between \<^verbatim>\<open>2**-500\<close> and \<^verbatim>\<open>2**500\<close>, the loop returns, the colour
  of the tile of the code is \<^verbatim>\<open>'normal'\<close>, and its delta is a formatted finite double
  whose distance from the quotient of the end value by the start value is at most
  \<^verbatim>\<open>2**-50\<close> times that quotient. With 10 and 25 the delta is 2.5 exactly (lemma
  \<open>growth_table_tiles\<close>).
\<close>

theorem growth_near_end_over_start:
  assumes "float_GDP gdp_df" and "k < length selected"
    and "spec_locate gdp_df (selected ! k) from_year = Some r0" and "GDP r0 = Float (Fin start_value)"
    and "spec_locate gdp_df (selected ! k) to_year = Some r1" and "GDP r1 = Float (Fin end_value)"
    and "2 powi (- 500) \<le> \<bar>start_value\<bar>" and "\<bar>start_value\<bar> \<le> 2 powi 500"
    and "2 powi (- 500) \<le> \<bar>end_value\<bar>" and "\<bar>end_value\<bar> \<le> 2 powi 500"
  shows "\<exists>ts g. metrics gdp_df selected from_year to_year = Inr ts \<and>
           tile_delta (ts ! k) = Formatted (Fin g) \<and> tile_delta_color (ts ! k) = Normal \<and>
           \<bar>g - end_value / start_value\<bar> \<le> \<bar>end_value / start_value\<bar> / 2 ^ 50"
proof -
  let ?f = "filter (\<lambda>r. Year r = from_year) gdp_df"
  let ?l = "filter (\<lambda>r. Year r = to_year) gdp_df"
  obtain a b g where a: "round_double (start_value / 1000000000) = Fin a" and a0: "a \<noteq> 0"
    and b: "round_double (end_value / 1000000000) = Fin b" and g: "round_double (b / a) = Fin g"
    and err: "\<bar>g - end_value / start_value\<bar> \<le> \<bar>end_value / start_value\<bar> / 2 ^ 50"
    using double_quotient [OF assms(7-10)] by blast
  obtain ts where ts: "metrics_loop ?f ?l 0 selected = Inr ts"
    using metrics_loop_float [OF assms(1)] by blast
  have fa: "gdp_lookup ?f (selected ! k) = Inr (Fin a)"
    using assms(3,4) a by (simp add: gdp_lookup_find billions_def)
  have lb: "gdp_lookup ?l (selected ! k) = Inr (Fin b)"
    using assms(5,6) b by (simp add: gdp_lookup_find billions_def)
  have "metric ?f ?l (0 + k) (selected ! k) = Inr (ts ! k)"
    using metrics_loop_nth [OF ts assms(2)] .
  then have "tile_delta (ts ! k) = Formatted (Fin g) \<and> tile_delta_color (ts ! k) = Normal"
    using metric_growth [OF fa lb a0, of "0 + k"] g by simp
  with ts err show ?thesis
    by (auto simp: metrics_def)
qed

theorem growth_near_end_over_start_witness:
  "\<exists>ts g. metrics growth_table [''DEU''] 2020 2021 = Inr ts \<and>
     tile_delta (ts ! 0) = Formatted (Fin g) \<and> tile_delta_color (ts ! 0) = Normal \<and>
     \<bar>g - 25 / 10\<bar> \<le> \<bar>25 / 10\<bar> / 2 ^ 50 \<and> g = 5 / 2"
proof -
  have f: "float_GDP growth_table"
    by (simp add: growth_table_def float_GDP_def)
  have k: "0 < length [''DEU'']" by simp
  have r0: "spec_locate growth_table ([''DEU''] ! 0) 2020 = Some (growth_table ! 0)"
    by (simp add: growth_table_def spec_locate_def)
  have r1: "spec_locate growth_table ([''DEU''] ! 0) 2021 = Some (growth_table ! 1)"
    by (simp add: growth_table_def spec_locate_def)
  have g0: "GDP (growth_table ! 0) = Float (Fin 10)" by (simp add: growth_table_def)
  have g1: "GDP (growth_table ! 1) = Float (Fin 25)" by (simp add: growth_table_def)
  have s1: "2 powi (- 500) \<le> \<bar>10 :: real\<bar>" by (simp add: power_int_minus_divide)
  have s2: "\<bar>10 :: real\<bar> \<le> 2 powi 500" by simp
  have e1: "2 powi (- 500) \<le> \<bar>25 :: real\<bar>" by (simp add: power_int_minus_divide)
  have e2: "\<bar>25 :: real\<bar> \<le> 2 powi 500" by simp
  obtain ts g where ts: "metrics growth_table [''DEU''] 2020 2021 = Inr ts"
    and d: "tile_delta (ts ! 0) = Formatted (Fin g)" and c: "tile_delta_color (ts ! 0) = Normal"
    and err: "\<bar>g - 25 / 10\<bar> \<le> \<bar>25 / 10\<bar> / 2 ^ 50"
    using growth_near_end_over_start [OF f k r0 g0 r1 g1 s1 s2 e1 e2] by blast
  from ts d have "g = 5 / 2"
    by (auto simp: growth_table_tiles)
  with ts d c err show ?thesis by blast
qed

text \<open>
  C4 (cardinality). When the header has the two identifier columns and every year of the
  range, the pivot returns a long table with as many records as the wide table has rows
  times the number of years of the range, one for each year and each row: the years,
  names and codes of the records are those of the pairs of a year and a row.
\<close>

theorem long_table_cardinality:
  assumes "set (required_columns lo hi) \<subseteq> set (header file)"
  shows "\<exists>gdp_df. get_gdp_data_range lo hi num_of file = Inr gdp_df \<and>
           length gdp_df = length (records file) * nat (hi - lo + 1) \<and>
           map (\<lambda>r. (Year r, Country_Name r, Country_Code r)) gdp_df =
             map (\<lambda>(y, w). (y, w ''Country Name'', w ''Country Code''))
               (List.product [lo..hi] (rows (read_csv num_of file)))"
proof -
  have "map (\<lambda>r. (Year r, Country_Name r, Country_Code r)) (spec_long_table lo hi (read_csv num_of file)) =
      map (\<lambda>(y, w). (y, w ''Country Name'', w ''Country Code''))
        (List.product [lo..hi] (rows (read_csv num_of file)))"
    by (simp add: spec_long_table_def split_def)
  then show ?thesis
    by (simp add: get_gdp_data_range_ok [OF assms] length_spec_long_table rows_read_csv_length)
qed

theorem long_table_cardinality_witness:
  "\<exists>gdp_df. get_gdp_data_range 2020 2021 example_num_of example_file = Inr gdp_df \<and>
      length gdp_df = 4"
  using long_table_cardinality [OF example_file_columns, of example_num_of]
  by (auto simp: example_file_def)

text \<open>
  C5 (uniqueness), as the claim states it, fails: the pivot does not look at the codes.
  On a file with the required columns in which two rows have the code of Germany, the
  long table has two records for Germany in each year.
\<close>

theorem repeated_code_repeated_key:
  "\<exists>gdp_df. get_gdp_data_range 2020 2021 example_num_of dup_file = Inr gdp_df \<and>
      \<not> distinct (map entity_year gdp_df)"
proof -
  have "\<not> distinct (map entity_year (spec_long_table 2020 2021 (read_csv example_num_of dup_file)))"
    by (simp add: entity_year_spec_long_table dup_file_codes upto_2020_2021)
  then show ?thesis
    by (simp add: get_gdp_data_range_ok [OF dup_file_columns])
qed

text \<open>
  C5, amended. When the header has the required columns and the codes of the rows of
  the wide table are distinct, the pivot returns a long table in which no two records
  have the same entity code and year, and the name and the code of each record are those
  of one row of the wide table.
\<close>

theorem long_table_keys_unique:
  assumes "set (required_columns lo hi) \<subseteq> set (header file)"
    and "distinct (map (\<lambda>w. w ''Country Code'') (rows (read_csv num_of file)))"
  shows "\<exists>gdp_df. get_gdp_data_range lo hi num_of file = Inr gdp_df \<and>
           distinct (map entity_year gdp_df) \<and>
           (\<forall>r \<in> set gdp_df. \<exists>w \<in> set (rows (read_csv num_of file)).
              Country_Name r = w ''Country Name'' \<and> Country_Code r = w ''Country Code'')"
proof -
  have "\<forall>r \<in> set (spec_long_table lo hi (read_csv num_of file)).
      \<exists>w \<in> set (rows (read_csv num_of file)).
        Country_Name r = w ''Country Name'' \<and> Country_Code r = w ''Country Code''"
    by (auto simp: set_spec_long_table)
  then show ?thesis
    by (simp add: get_gdp_data_range_ok [OF assms(1)] distinct_spec_long_table [OF assms(2)])
qed

theorem long_table_keys_unique_witness:
  "\<exists>gdp_df. get_gdp_data_range 2020 2021 example_num_of example_file = Inr gdp_df \<and>
      distinct (map entity_year gdp_df) \<and>
      (\<forall>r \<in> set gdp_df. \<exists>w \<in> set (rows (read_csv example_num_of example_file)).
         Country_Name r = w ''Country Name'' \<and> Country_Code r = w ''Country Code'')"
proof -
  have "distinct (map (\<lambda>w. w ''Country Code'') (rows (read_csv example_num_of example_file)))"
    by (simp add: example_codes)
  from long_table_keys_unique [OF example_file_columns this] show ?thesis .
qed

text \<open>
  C6 (null preservation). When the field of a record of the file under a year of the
  range is the token \<^verbatim>\<open>..\<close>, the record of the long table for that row and that year
  (it has the name and the code of the row, and the year) has the value NaN: not zero,
  and not a text.
\<close>

theorem sentinel_becomes_nan:
  assumes "set (required_columns lo hi) \<subseteq> set (header file)"
    and "i < length (records file)" and "lo \<le> y" and "y \<le> hi"
    and "(records file ! i) (str y) = ''..''"
  shows "\<exists>gdp_df. get_gdp_data_range lo hi num_of file = Inr gdp_df \<and>
           (let r = gdp_df ! (nat (y - lo) * length (records file) + i)
            in Country_Name r = (rows (read_csv num_of file) ! i) ''Country Name'' \<and>
               Country_Code r = (rows (read_csv num_of file) ! i) ''Country Code'' \<and>
               Year r = y \<and> GDP r = Float NaN \<and> GDP r \<noteq> Float (Fin 0) \<and> (\<forall>s. GDP r \<noteq> Str s))"
proof -
  have i: "i < length (rows (read_csv num_of file))"
    using assms(2) by (simp add: rows_read_csv_length)
  have "(rows (read_csv num_of file) ! i) (str y) = Float NaN"
    using assms(2,5) by (simp add: read_csv_def convert_field_na is_na_sentinel)
  then show ?thesis
    using spec_long_table_nth [OF i assms(3,4)]
    by (simp add: get_gdp_data_range_ok [OF assms(1)] rows_read_csv_length)
qed

theorem sentinel_becomes_nan_witness:
  "\<exists>gdp_df. get_gdp_data_range 2020 2021 example_num_of example_file = Inr gdp_df \<and>
      Country_Code (gdp_df ! 1) = Str ''FRA'' \<and> Year (gdp_df ! 1) = 2020 \<and> GDP (gdp_df ! 1) = Float NaN"
proof -
  have i: "1 < length (records example_file)"
    by (simp add: example_file_records)
  have c: "(rows (read_csv example_num_of example_file) ! Suc 0) ''Country Code'' = Str ''FRA''"
    by (simp add: read_csv_def example_file_def convert_field_def numeric_column_def is_na_def
        na_values_def default_na_values_def example_num_of_def)
  show ?thesis
    using sentinel_becomes_nan [OF example_file_columns i _ _ example_file_sentinel, of example_num_of]
    by (auto simp: example_file_records Let_def c)
qed



text \<open>
  C8 (missing columns). When the header lacks one of the two identifier columns or a
  year of the range, the pivot fails, with the \<open>KeyError\<close> of the selection of the
  columns (the error the specification calls a schema error), which names the missing
  labels, and returns no table. When the header has them all, the pivot returns a table,
  whatever the fields of the records are.
\<close>

theorem missing_column_is_an_error:
  "(\<not> set (required_columns lo hi) \<subseteq> set (header file) \<longrightarrow>
      (\<exists>missing. missing \<noteq> [] \<and> set missing = set (required_columns lo hi) - set (header file) \<and>
         get_gdp_data_range lo hi num_of file = Inl (KeyError missing))) \<and>
   (set (required_columns lo hi) \<subseteq> set (header file) \<longrightarrow>
      (\<exists>gdp_df. get_gdp_data_range lo hi num_of file = Inr gdp_df))"
proof (intro conjI impI)
  assume a: "\<not> set (required_columns lo hi) \<subseteq> set (header file)"
  let ?missing = "filter (\<lambda>l. l \<notin> set (header file)) (required_columns lo hi)"
  have "?missing \<noteq> []"
    using a by (auto simp: filter_empty_conv)
  moreover have "set ?missing = set (required_columns lo hi) - set (header file)"
    by auto
  ultimately show "\<exists>missing. missing \<noteq> [] \<and> set missing = set (required_columns lo hi) - set (header file) \<and>
         get_gdp_data_range lo hi num_of file = Inl (KeyError missing)"
    by (simp add: get_gdp_data_range_eq)
next
  assume "set (required_columns lo hi) \<subseteq> set (header file)"
  then show "\<exists>gdp_df. get_gdp_data_range lo hi num_of file = Inr gdp_df"
    by (simp add: get_gdp_data_range_ok)
qed

theorem missing_column_is_an_error_witness:
  "(\<exists>missing. missing \<noteq> [] \<and> set missing = {''2021''} \<and>
      get_gdp_data_range 2020 2021 example_num_of short_file = Inl (KeyError missing)) \<and>
   (\<exists>gdp_df. get_gdp_data_range 2020 2021 example_num_of example_file = Inr gdp_df)"
proof -
  have a: "\<not> set (required_columns 2020 2021) \<subseteq> set (header short_file)"
    by (simp add: required_2020_2021 short_file_def)
  have b: "set (required_columns 2020 2021) - set (header short_file) = {''2021''}"
    by (auto simp: required_2020_2021 short_file_def)
  show ?thesis
    using missing_column_is_an_error [of 2020 2021 short_file example_num_of]
      missing_column_is_an_error [of 2020 2021 example_file example_num_of]
      a b example_file_columns
    by simp
qed




text \<open>
  C10 (the fallback of the lookup). On the long table the pivot returns, and for a year
  of the range, the selection of the lookup is empty, so that \<^verbatim>\<open>.iat[0]\<close> raises
  \<open>IndexError\<close>, exactly when no record of the table has the code. For a code the
  table has, the lookup finds a record of the code and the year and returns the value of
  that record, NaN when it is missing, divided by \<open>1e9\<close>.
\<close>

theorem fallback_only_for_unknown_codes:
  assumes "set (required_columns lo hi) \<subseteq> set (header file)" and "lo \<le> y" and "y \<le> hi"
  shows "\<exists>gdp_df. get_gdp_data_range lo hi num_of file = Inr gdp_df \<and>
           (iat0 (map GDP (filter (\<lambda>r. Country_Code r = Str code) (filter (\<lambda>r. Year r = y) gdp_df))) =
              Inl IndexError) = (Str code \<notin> Country_Code ` set gdp_df) \<and>
           (Str code \<in> Country_Code ` set gdp_df \<longrightarrow>
              (\<exists>r \<in> set gdp_df. Year r = y \<and> Country_Code r = Str code \<and>
                 gdp_lookup (filter (\<lambda>r. Year r = y) gdp_df) code = billions (GDP r)))"
proof -
  let ?t = "spec_long_table lo hi (read_csv num_of file)"
  have e: "(\<exists>r \<in> set ?t. Year r = y \<and> Country_Code r = Str code) = (Str code \<in> Country_Code ` set ?t)"
    using assms(2,3) by (rule codes_spec_long_table)
  have "(iat0 (map GDP (filter (\<lambda>r. Country_Code r = Str code) (filter (\<lambda>r. Year r = y) ?t))) =
              Inl IndexError) = (\<not> (\<exists>r \<in> set ?t. Year r = y \<and> Country_Code r = Str code))"
    by (auto simp: iat0_IndexError filter_empty_conv)
  then have 1: "(iat0 (map GDP (filter (\<lambda>r. Country_Code r = Str code) (filter (\<lambda>r. Year r = y) ?t))) =
              Inl IndexError) = (Str code \<notin> Country_Code ` set ?t)"
    by (simp only: e)
  have 2: "\<exists>r \<in> set ?t. Year r = y \<and> Country_Code r = Str code \<and>
                 gdp_lookup (filter (\<lambda>r. Year r = y) ?t) code = billions (GDP r)"
    if "Str code \<in> Country_Code ` set ?t"
  proof -
    from that e have "spec_locate ?t code y \<noteq> None"
      by (simp add: spec_locate_None)
    then obtain r where r: "spec_locate ?t code y = Some r" by auto
    then have "gdp_lookup (filter (\<lambda>r. Year r = y) ?t) code = billions (GDP r)"
      by (simp add: gdp_lookup_find)
    with spec_locate_Some [OF r] show ?thesis by blast
  qed
  show ?thesis
    using 1 2 by (simp add: get_gdp_data_range_ok [OF assms(1)])
qed

theorem fallback_only_for_unknown_codes_witness:
  "\<exists>gdp_df. get_gdp_data_range 2020 2021 example_num_of example_file = Inr gdp_df \<and>
      Str ''FRA'' \<in> Country_Code ` set gdp_df \<and>
      iat0 (map GDP (filter (\<lambda>r. Country_Code r = Str ''FRA'') (filter (\<lambda>r. Year r = 2020) gdp_df))) \<noteq>
        Inl IndexError \<and>
      (\<exists>r \<in> set gdp_df. Year r = 2020 \<and> Country_Code r = Str ''FRA'' \<and>
         gdp_lookup (filter (\<lambda>r. Year r = 2020) gdp_df) ''FRA'' = billions (GDP r))"
proof -
  obtain gdp_df where g: "get_gdp_data_range 2020 2021 example_num_of example_file = Inr gdp_df"
    and i: "(iat0 (map GDP (filter (\<lambda>r. Country_Code r = Str ''FRA'') (filter (\<lambda>r. Year r = 2020) gdp_df))) =
              Inl IndexError) = (Str ''FRA'' \<notin> Country_Code ` set gdp_df)"
    and l: "Str ''FRA'' \<in> Country_Code ` set gdp_df \<longrightarrow>
              (\<exists>r \<in> set gdp_df. Year r = 2020 \<and> Country_Code r = Str ''FRA'' \<and>
                 gdp_lookup (filter (\<lambda>r. Year r = 2020) gdp_df) ''FRA'' = billions (GDP r))"
    using fallback_only_for_unknown_codes [OF example_file_columns, of 2020 example_num_of "''FRA''"]
    by auto
  have "gdp_df = spec_long_table 2020 2021 (read_csv example_num_of example_file)"
    using g by (simp add: get_gdp_data_range_ok [OF example_file_columns])
  then have "map Country_Code gdp_df = [Str ''DEU'', Str ''FRA'', Str ''DEU'', Str ''FRA'']"
    using example_codes by (simp add: spec_long_table_def upto_2020_2021 comp_def)
  then have "Str ''FRA'' \<in> set (map Country_Code gdp_df)" by simp
  then have "Str ''FRA'' \<in> Country_Code ` set gdp_df" by simp
  with g i l show ?thesis by simp
qed

end
